theory Spec2Isabelle
  imports Main
begin

section \<open>Data model\<close>

text \<open>
  The program is one Python module, \<^verbatim>\<open>backend/main.py\<close>: a WebSocket endpoint
  \<^verbatim>\<open>execute_code\<close> that receives one message and hands it to
  \<^verbatim>\<open>CodeExecutor.execute\<close>, which runs the submitted code in Docker containers through
  \<^verbatim>\<open>CodeExecutor._run_container\<close> and reports by frames sent over the socket.

  The code is embedded as state-passing functions over a \<open>world\<close>. Everything the code
  does to its surroundings is an \<open>action\<close> appended to a trace; everything the
  surroundings decide (whether a call of a library raises, what a container prints, with
  what status it exits) is read from an \<open>env\<close>, which the code cannot change.
\<close>

subsection \<open>Frames\<close>

text \<open>
  Every \<^verbatim>\<open>websocket.send_json\<close> of the module sends a dictionary
  \<^verbatim>\<open>{"type": t, "data": d}\<close> with \<^verbatim>\<open>t\<close> one of \<^verbatim>\<open>"status"\<close>,
  \<^verbatim>\<open>"output"\<close>, \<^verbatim>\<open>"error"\<close> and \<^verbatim>\<open>d\<close> a string.
\<close>

datatype frame = Status string | Output string | Error string

fun is_Output :: "frame \<Rightarrow> bool" where
  "is_Output (Output d) = True"
| "is_Output f = False"

fun is_Error :: "frame \<Rightarrow> bool" where
  "is_Error (Error d) = True"
| "is_Error f = False"

fun data :: "frame \<Rightarrow> string" where
  "data (Status d) = d"
| "data (Output d) = d"
| "data (Error d) = d"

subsection \<open>Exceptions and outcomes\<close>

text \<open>
  The module tells two classes of exception apart: \<^verbatim>\<open>docker.errors.APIError\<close>, caught
  inside \<^verbatim>\<open>_run_container\<close>, and every other subclass of \<^verbatim>\<open>Exception\<close>, caught by
  \<^verbatim>\<open>except Exception\<close>. The string carried is \<^verbatim>\<open>str(e)\<close>. Exceptions outside
  \<^verbatim>\<open>Exception\<close> (task cancellation, keyboard interrupt) are not modelled.

  A call returns a value, raises, or never returns: the loop over
  \<^verbatim>\<open>container.logs(stream=True, follow=True)\<close> has no timeout and blocks for as long as
  the container neither prints nor stops.
\<close>

datatype exn = APIError string | OtherError string

fun str :: "exn \<Rightarrow> string" where
  "str (APIError m) = m"
| "str (OtherError m) = m"

datatype 'a outcome = Returns 'a | Raises exn | Hangs

subsection \<open>Containers\<close>

text \<open>The keyword arguments of \<^verbatim>\<open>docker_client.containers.run\<close>.\<close>

record container_args =
  image :: string
  command :: string
  volumes :: "(string \<times> string \<times> string) list"
  working_dir :: string
  network_mode :: string
  mem_limit :: string
  cpu_period :: int
  cpu_quota :: int
  detach :: bool
  remove :: bool
  stdout :: bool
  stderr :: bool

text \<open>
  What one execution unit does, as far as the module can observe it. Creating the unit
  raises, or it starts; a started unit yields the chunks of its log (standard output and
  standard error interleaved), each of which is valid UTF-8 or not; the log then ends,
  raises, or blocks for ever; \<^verbatim>\<open>container.wait(timeout=10)\<close> returns the exit status
  or raises (the timeout included).
\<close>

datatype chunk = Utf8 string | NotUtf8 string

datatype log_end = StreamEnds | StreamRaises exn | StreamBlocks

datatype wait_result = ExitStatus int | WaitRaises exn

datatype unit_behaviour =
  CreateRaises exn
| Started "chunk list" log_end wait_result

subsection \<open>The surroundings\<close>

type_synonym message = "string \<rightharpoonup> string"

text \<open>
  How the removal of a directory tree can fail: with an \<^verbatim>\<open>OSError\<close> (a file that
  cannot be unlinked), or with an exception of another class (\<^verbatim>\<open>shutil.rmtree\<close> walks
  the tree by recursion and raises \<^verbatim>\<open>RecursionError\<close> on a tree deeper than the
  recursion limit). The string is the text of the exception.
\<close>

datatype rm_fault = OSError string | NotOSError string

record env =
  received :: "exn + message"
  send_fault :: "nat \<Rightarrow> string option"
  uuid4 :: string
  mkdir_fault :: "string option"
  write_fault :: "string option"
  rmtree_fault :: "rm_fault option"
  compile_unit :: unit_behaviour
  run_unit :: unit_behaviour

text \<open>
  \<^item> \<open>received\<close>: what \<^verbatim>\<open>websocket.receive_json()\<close> gives, a dictionary with string
    values or an exception;
  \<^item> \<open>send_fault k\<close>: whether the \<open>k\<close>-th call of \<^verbatim>\<open>send_json\<close> raises, and with what
    message (a client that has gone away);
  \<^item> \<open>uuid4\<close>: the identifier drawn for the session;
  \<^item> \<open>mkdir_fault\<close>, \<open>write_fault\<close>, \<open>rmtree_fault\<close>: whether the file system refuses
    the operation;
  \<^item> \<open>compile_unit\<close>, \<open>run_unit\<close>: the behaviour of the unit of the compile phase and of
    the unit of the run phase.
\<close>

datatype action =
  Accept
| Send frame
| Mkdir string
| WriteText string string
| ContainerRun container_args
| Rmtree string
| Close

record world =
  trace :: "action list"
  sends :: nat
  dirs :: "string set"

type_synonym 'a io = "world \<Rightarrow> 'a outcome \<times> world"

definition log :: "action \<Rightarrow> world \<Rightarrow> world" where
  "log a w = w\<lparr>trace := trace w @ [a]\<rparr>"

fun sent :: "action list \<Rightarrow> frame list" where
  "sent [] = []"
| "sent (Send f # as) = f # sent as"
| "sent (a # as) = sent as"

fun spawned :: "action list \<Rightarrow> container_args list" where
  "spawned [] = []"
| "spawned (ContainerRun c # as) = c # spawned as"
| "spawned (a # as) = spawned as"

definition frames :: "world \<Rightarrow> frame list" where
  "frames w = sent (trace w)"

section \<open>Control flow\<close>

definition return :: "'a \<Rightarrow> 'a io" where
  "return x w = (Returns x, w)"

definition raise :: "exn \<Rightarrow> 'a io" where
  "raise e w = (Raises e, w)"

definition bind :: "'a io \<Rightarrow> ('a \<Rightarrow> 'b io) \<Rightarrow> 'b io" where
  "bind m k w =
     (case m w of
        (Returns x, w') \<Rightarrow> k x w'
      | (Raises e, w') \<Rightarrow> (Raises e, w')
      | (Hangs, w') \<Rightarrow> (Hangs, w'))"

text \<open>\<^verbatim>\<open>try: m  except Exception as e: h(e)\<close>\<close>

definition try_except :: "'a io \<Rightarrow> (exn \<Rightarrow> 'a io) \<Rightarrow> 'a io" where
  "try_except m h w =
     (case m w of
        (Raises e, w') \<Rightarrow> h e w'
      | r \<Rightarrow> r)"

text \<open>\<^verbatim>\<open>try: m  except docker.errors.APIError as e: h(e)\<close>\<close>

definition try_except_APIError :: "'a io \<Rightarrow> (exn \<Rightarrow> 'a io) \<Rightarrow> 'a io" where
  "try_except_APIError m h w =
     (case m w of
        (Raises (APIError s), w') \<Rightarrow> h (APIError s) w'
      | r \<Rightarrow> r)"

text \<open>
  \<^verbatim>\<open>try: m  finally: fin\<close>. The \<^verbatim>\<open>finally\<close> suite runs when \<open>m\<close> returns or raises; an
  exception of the suite replaces the pending one. It does not run when \<open>m\<close> never
  returns.
\<close>

definition try_finally :: "'a io \<Rightarrow> unit io \<Rightarrow> 'a io" where
  "try_finally m fin w =
     (case m w of
        (Hangs, w') \<Rightarrow> (Hangs, w')
      | (r, w') \<Rightarrow>
          (case fin w' of
             (Returns u, w'') \<Rightarrow> (r, w'')
           | (Raises e, w'') \<Rightarrow> (Raises e, w'')
           | (Hangs, w'') \<Rightarrow> (Hangs, w'')))"

section \<open>Library calls\<close>

text \<open>
  \<^verbatim>\<open>websocket.accept()\<close> and \<^verbatim>\<open>websocket.close()\<close> are taken to succeed: an exception
  of either is handled nowhere in the module. \<^verbatim>\<open>send_json\<close> appends the frame to the
  trace, or raises and leaves the trace as it is; either way the call is counted.
\<close>

definition accept :: "unit io" where
  "accept w = (Returns (), log Accept w)"

definition close :: "unit io" where
  "close w = (Returns (), log Close w)"

definition receive_json :: "env \<Rightarrow> message io" where
  "receive_json env w =
     (case received env of
        Inl e \<Rightarrow> (Raises e, w)
      | Inr d \<Rightarrow> (Returns d, w))"

definition send_json :: "env \<Rightarrow> frame \<Rightarrow> unit io" where
  "send_json env f w =
     (case send_fault env (sends w) of
        None \<Rightarrow> (Returns (), (log (Send f) w)\<lparr>sends := Suc (sends w)\<rparr>)
      | Some m \<Rightarrow> (Raises (OtherError m), w\<lparr>sends := Suc (sends w)\<rparr>))"

text \<open>\<^verbatim>\<open>dict.get(key, default)\<close>\<close>

definition dict_get :: "('k \<rightharpoonup> 'v) \<Rightarrow> 'k \<Rightarrow> 'v \<Rightarrow> 'v" where
  "dict_get d k dflt = (case d k of None \<Rightarrow> dflt | Some v \<Rightarrow> v)"

text \<open>\<^verbatim>\<open>Path.mkdir()\<close>: raises when the directory exists already.\<close>

definition mkdir :: "env \<Rightarrow> string \<Rightarrow> unit io" where
  "mkdir env d w =
     (if d \<in> dirs w
      then (Raises (OtherError (''[Errno 17] File exists: '' @ [CHR 0x27] @ d @ [CHR 0x27])), w)
      else case mkdir_fault env of
        None \<Rightarrow> (Returns (), (log (Mkdir d) w)\<lparr>dirs := insert d (dirs w)\<rparr>)
      | Some m \<Rightarrow> (Raises (OtherError m), w))"

definition write_text :: "env \<Rightarrow> string \<Rightarrow> string \<Rightarrow> unit io" where
  "write_text env p s w =
     (case write_fault env of
        None \<Rightarrow> (Returns (), log (WriteText p s) w)
      | Some m \<Rightarrow> (Raises (OtherError m), w))"

text \<open>
  \<^verbatim>\<open>shutil.rmtree(path, ignore_errors)\<close>: \<^verbatim>\<open>ignore_errors\<close> silences the
  \<^verbatim>\<open>OSError\<close>s of the removal and nothing else. When the removal fails the tree stays.
\<close>

definition rmtree :: "env \<Rightarrow> string \<Rightarrow> bool \<Rightarrow> unit io" where
  "rmtree env d ignore_errors w =
     (case rmtree_fault env of
        None \<Rightarrow> (Returns (), (log (Rmtree d) w)\<lparr>dirs := dirs w - {d}\<rparr>)
      | Some (OSError m) \<Rightarrow>
          if ignore_errors then (Returns (), log (Rmtree d) w)
          else (Raises (OtherError m), log (Rmtree d) w)
      | Some (NotOSError m) \<Rightarrow> (Raises (OtherError m), log (Rmtree d) w))"

text \<open>
  \<^verbatim>\<open>template.format(**kwargs)\<close> for templates whose fields are plain names in braces,
  as all templates of the module are: a field without a value raises \<^verbatim>\<open>KeyError\<close>
  (whose text is the quoted name), a brace left open raises \<^verbatim>\<open>ValueError\<close>. The
  second argument is the field being read, if any.
\<close>

fun format_from :: "string \<Rightarrow> string option \<Rightarrow> (string \<times> string) list \<Rightarrow> exn + string" where
  "format_from [] None kw = Inr []"
| "format_from [] (Some name) kw = Inl (OtherError ''expected } before end of string'')"
| "format_from (c # cs) None kw =
     (if c = CHR ''{'' then format_from cs (Some []) kw
      else case format_from cs None kw of
        Inl e \<Rightarrow> Inl e
      | Inr s \<Rightarrow> Inr (c # s))"
| "format_from (c # cs) (Some name) kw =
     (if c = CHR ''}'' then
        (case map_of kw name of
           None \<Rightarrow> Inl (OtherError ([CHR 0x27] @ name @ [CHR 0x27]))
         | Some v \<Rightarrow>
             (case format_from cs None kw of
                Inl e \<Rightarrow> Inl e
              | Inr s \<Rightarrow> Inr (v @ s)))
      else format_from cs (Some (name @ [c])) kw)"

definition format :: "string \<Rightarrow> (string \<times> string) list \<Rightarrow> string io" where
  "format template kw w =
     (case format_from template None kw of
        Inl e \<Rightarrow> (Raises e, w)
      | Inr s \<Rightarrow> (Returns s, w))"

text \<open>\<^verbatim>\<open>str(n)\<close> for an integer, as the f-string of the exit code needs it.\<close>

fun digits :: "nat \<Rightarrow> string" where
  "digits n =
     (if n < 10 then [''0123456789'' ! n]
      else digits (n div 10) @ [''0123456789'' ! (n mod 10)])"

declare digits.simps [simp del]

definition str_int :: "int \<Rightarrow> string" where
  "str_int i = (if i < 0 then CHR ''-'' # digits (nat (- i)) else digits (nat i))"

text \<open>\<^verbatim>\<open>line.decode('utf-8')\<close>\<close>

definition decode :: "chunk \<Rightarrow> string io" where
  "decode c w =
     (case c of
        Utf8 s \<Rightarrow> (Returns s, w)
      | NotUtf8 m \<Rightarrow> (Raises (OtherError m), w))"

text \<open>
  \<^verbatim>\<open>docker_client.containers.run(...)\<close> with \<^verbatim>\<open>detach=True\<close>: the handle it returns
  is the rest of the unit's behaviour. The action records the call, whether or not the
  unit comes into being.
\<close>

definition containers_run ::
  "unit_behaviour \<Rightarrow> container_args \<Rightarrow> (chunk list \<times> log_end \<times> wait_result) io" where
  "containers_run b args w =
     (case b of
        CreateRaises e \<Rightarrow> (Raises e, log (ContainerRun args) w)
      | Started cs le wr \<Rightarrow> (Returns (cs, le, wr), log (ContainerRun args) w))"

text \<open>\<^verbatim>\<open>container.wait(timeout=10)['StatusCode']\<close>\<close>

definition container_wait :: "wait_result \<Rightarrow> int io" where
  "container_wait wr w =
     (case wr of
        ExitStatus n \<Rightarrow> (Returns n, w)
      | WaitRaises e \<Rightarrow> (Raises e, w))"

section \<open>The module\<close>

definition TEMP_DIR :: string where
  "TEMP_DIR = ''/tmp/code_execution''"

record config =
  cfg_image :: string
  file_ext :: string
  compile_cmd :: "string option"
  run_cmd :: string

definition LANGUAGE_CONFIGS :: "string \<rightharpoonup> config" where
  "LANGUAGE_CONFIGS = map_of
     [(''python'',
        \<lparr>cfg_image = ''python:3.11-slim'', file_ext = ''py'',
         compile_cmd = None, run_cmd = ''python {filename}''\<rparr>),
      (''cpp'',
        \<lparr>cfg_image = ''gcc:latest'', file_ext = ''cpp'',
         compile_cmd = Some ''g++ -o program {filename} -std=c++17'',
         run_cmd = ''./program''\<rparr>),
      (''java'',
        \<lparr>cfg_image = ''eclipse-temurin:17-jre'', file_ext = ''java'',
         compile_cmd = Some ''javac {filename}'',
         run_cmd = ''java {classname}''\<rparr>)]"

subsection \<open>\<^verbatim>\<open>CodeExecutor._run_container\<close>\<close>

text \<open>
  The loop \<^verbatim>\<open>for line in container.logs(stream=True, follow=True)\<close>: each chunk is
  decoded and sent as an output frame (the pause of 10 ms between frames is a matter of
  time and is left out).
\<close>

fun stream_logs :: "env \<Rightarrow> chunk list \<Rightarrow> log_end \<Rightarrow> unit io" where
  "stream_logs env [] le =
     (case le of
        StreamEnds \<Rightarrow> return ()
      | StreamRaises e \<Rightarrow> raise e
      | StreamBlocks \<Rightarrow> (\<lambda>w. (Hangs, w)))"
| "stream_logs env (c # cs) le =
     bind (decode c) (\<lambda>decoded.
     bind (send_json env (Output decoded)) (\<lambda>_.
     stream_logs env cs le))"

definition run_args :: "string \<Rightarrow> string \<Rightarrow> string \<Rightarrow> container_args" where
  "run_args img cmd work_dir =
     \<lparr>image = img,
      command = ''sh -c '' @ [CHR 0x27] @ cmd @ [CHR 0x27],
      volumes = [(work_dir, ''/workspace'', ''rw'')],
      working_dir = ''/workspace'',
      network_mode = ''none'',
      mem_limit = ''256m'',
      cpu_period = 100000,
      cpu_quota = 50000,
      detach = True,
      remove = True,
      stdout = True,
      stderr = True\<rparr>"

definition run_container ::
  "env \<Rightarrow> unit_behaviour \<Rightarrow> string \<Rightarrow> string \<Rightarrow> string \<Rightarrow> string \<Rightarrow> unit io" where
  "run_container env b img cmd work_dir status_msg =
     bind (send_json env (Status status_msg)) (\<lambda>_.
     bind (containers_run b (run_args img cmd work_dir)) (\<lambda>(cs, le, wr).
     try_except_APIError
       (bind (stream_logs env cs le) (\<lambda>_.
        bind (container_wait wr) (\<lambda>exit_code.
        if exit_code \<noteq> 0
        then send_json env (Error (''Process exited with code '' @ str_int exit_code))
        else return ())))
       (\<lambda>e. send_json env (Error (''Docker error: '' @ str e)))))"

subsection \<open>\<^verbatim>\<open>CodeExecutor.execute\<close>\<close>

definition work_dir_of :: "env \<Rightarrow> string" where
  "work_dir_of env = TEMP_DIR @ ''/'' @ uuid4 env"

text \<open>
  The suite of the \<^verbatim>\<open>try\<close> statement (lines 76 to 114). The test
  \<^verbatim>\<open>if config["compile_cmd"]\<close> is a test for \<^verbatim>\<open>None\<close>: no command of the table is the
  empty string. For a language other than Java the class name is \<^verbatim>\<open>None\<close>, which
  \<^verbatim>\<open>format\<close> would print as such.
\<close>

definition execute_body :: "env \<Rightarrow> config \<Rightarrow> string \<Rightarrow> string \<Rightarrow> unit io" where
  "execute_body env cfg code language =
     (let work_dir = work_dir_of env;
          filename = ''main.'' @ file_ext cfg;
          code_file = work_dir @ ''/'' @ filename
      in
        bind (write_text env code_file code) (\<lambda>_.
        bind (send_json env (Status ''Starting execution...'')) (\<lambda>_.
        bind (case compile_cmd cfg of
                None \<Rightarrow> return ()
              | Some template \<Rightarrow>
                  bind (format template [(''filename'', filename)]) (\<lambda>cmd.
                  run_container env (compile_unit env) (cfg_image cfg) cmd work_dir
                    ''Compiling...'')) (\<lambda>_.
        bind (format (run_cmd cfg)
                [(''filename'', filename),
                 (''classname'', if language = ''java'' then ''main'' else ''None'')]) (\<lambda>cmd.
        bind (run_container env (run_unit env) (cfg_image cfg) cmd work_dir
                ''Running...'') (\<lambda>_.
        send_json env (Status ''Execution complete'')))))))"

definition execute :: "env \<Rightarrow> string \<Rightarrow> string \<Rightarrow> unit io" where
  "execute env code language =
     (case LANGUAGE_CONFIGS language of
        None \<Rightarrow> send_json env (Error (''Unsupported language: '' @ language))
      | Some cfg \<Rightarrow>
          bind (mkdir env (work_dir_of env)) (\<lambda>_.
          try_finally
            (try_except
               (execute_body env cfg code language)
               (\<lambda>e. send_json env (Error (str e))))
            (rmtree env (work_dir_of env) True)))"

subsection \<open>\<^verbatim>\<open>execute_code\<close>\<close>

definition execute_code :: "env \<Rightarrow> unit io" where
  "execute_code env =
     bind accept (\<lambda>_.
     try_finally
       (try_except
          (bind (receive_json env) (\<lambda>data.
           execute env (dict_get data ''code'' []) (dict_get data ''language'' ''python'')))
          (\<lambda>e. send_json env (Error (''Server error: '' @ str e))))
       close)"

section \<open>Concrete surroundings\<close>

text \<open>A world in which nothing has happened yet, and surroundings in which nothing fails.\<close>

definition fresh :: world where
  "fresh = \<lparr>trace = [], sends = 0, dirs = {}\<rparr>"

definition quiet :: unit_behaviour where
  "quiet = Started [] StreamEnds (ExitStatus 0)"

definition benign :: "message \<Rightarrow> env" where
  "benign d =
     \<lparr>received = Inr d, send_fault = (\<lambda>k. None), uuid4 = ''u'',
      mkdir_fault = None, write_fault = None, rmtree_fault = None,
      compile_unit = quiet, run_unit = quiet\<rparr>"

text \<open>A C++ source that does not compile: the compiler fails, and so does the run.\<close>

definition broken_build :: env where
  "broken_build =
     (benign [''code'' \<mapsto> ''int main() {'', ''language'' \<mapsto> ''cpp''])
       \<lparr>compile_unit := Started [Utf8 ''main.cpp:1:12: error: expected } at end of input'']
          StreamEnds (ExitStatus 1),
        run_unit := Started [Utf8 ''sh: 1: ./program: not found''] StreamEnds (ExitStatus 127)\<rparr>"

text \<open>A Python program that prints and exits with status 1.\<close>

definition failing_run :: env where
  "failing_run =
     (benign [''code'' \<mapsto> ''raise SystemExit(1)'', ''language'' \<mapsto> ''python''])
       \<lparr>run_unit := Started [Utf8 ''boom''] StreamEnds (ExitStatus 1)\<rparr>"

text \<open>
  A C++ program that prints nothing and exits with status 0, and about which the
  compiler prints a warning.
\<close>

definition noisy_build :: env where
  "noisy_build =
     (benign [''code'' \<mapsto> ''int main() { int x = 2147483647 + 1; return 0; }'',
              ''language'' \<mapsto> ''cpp''])
       \<lparr>compile_unit :=
          Started [Utf8 ''main.cpp:1:33: warning: integer overflow in expression'']
            StreamEnds (ExitStatus 0),
        run_unit := Started [] StreamEnds (ExitStatus 0)\<rparr>"

text \<open>
  The same C++ program made to print two lines; the compiler warns as before.
\<close>

definition hello_build :: env where
  "hello_build =
     (benign [''code'' \<mapsto>
         ''int main() { int x = 2147483647 + 1; __builtin_putchar(104); __builtin_putchar(10); __builtin_putchar(105); __builtin_putchar(10); return 0; }'',
       ''language'' \<mapsto> ''cpp''])
       \<lparr>compile_unit :=
          Started [Utf8 ''main.cpp:1:33: warning: integer overflow in expression'']
            StreamEnds (ExitStatus 0),
        run_unit := Started [Utf8 [CHR ''h'', CHR 0x0A], Utf8 [CHR ''i'', CHR 0x0A]]
            StreamEnds (ExitStatus 0)\<rparr>"



text \<open>
  A C++ session in which the Docker daemon fails while the log of the compile unit is
  read: no executable is built, and the run fails.
\<close>

definition compile_refused :: env where
  "compile_refused =
     (benign [''code'' \<mapsto> ''int main() { return 0; }'', ''language'' \<mapsto> ''cpp''])
       \<lparr>compile_unit := Started [] (StreamRaises (APIError
          ''500 Server Error for http+docker://localhost/v1.43/containers/logs: Internal Server Error''))
          (ExitStatus 0),
        run_unit := Started [Utf8 ''sh: 1: ./program: not found''] StreamEnds (ExitStatus 127)\<rparr>"

text \<open>
  A Python session whose client goes away after the first frame: every later
  \<^verbatim>\<open>send_json\<close> raises (the disconnection carries no text).
\<close>

definition client_gone :: env where
  "client_gone =
     (benign [''code'' \<mapsto> ''print(1)'', ''language'' \<mapsto> ''python''])
       \<lparr>send_fault := (\<lambda>k. if 1 \<le> k then Some [] else None)\<rparr>"

text \<open>A Python session whose source file cannot be written.\<close>

definition disk_full :: env where
  "disk_full =
     (benign [''code'' \<mapsto> ''print(1)'', ''language'' \<mapsto> ''python''])
       \<lparr>write_fault := Some ''[Errno 28] No space left on device''\<rparr>"

text \<open>
  A Python program that leaves a chain of 1500 nested directories in its workspace and
  exits with status 0; the removal of the workspace then exceeds the recursion limit.
\<close>

definition deep_tree :: env where
  "deep_tree =
     (benign [''code'' \<mapsto>
         ''import os; [(os.mkdir(chr(100)), os.chdir(chr(100))) for i in range(1500)]'',
       ''language'' \<mapsto> ''python''])
       \<lparr>rmtree_fault := Some (NotOSError ''maximum recursion depth exceeded'')\<rparr>"

section \<open>Auxiliary notions\<close>

text \<open>
  A unit blocks when its log neither ends nor raises; \<open>halts_unless C m\<close>: \<open>m\<close>
  returns or raises, whatever the world, unless \<open>C\<close> holds.
\<close>

fun blocks :: "unit_behaviour \<Rightarrow> bool" where
  "blocks (Started cs StreamBlocks wr) = True"
| "blocks b = False"

definition halts_unless :: "bool \<Rightarrow> 'a io \<Rightarrow> bool" where
  "halts_unless C m \<longleftrightarrow> (\<forall>w. fst (m w) = Hangs \<longrightarrow> C)"

text \<open>The frames sent between two worlds.\<close>

definition new_frames :: "world \<Rightarrow> world \<Rightarrow> frame list" where
  "new_frames w w' = drop (length (frames w)) (frames w')"

text \<open>Two worlds that differ in their directories only.\<close>

definition same_channel :: "world \<Rightarrow> world \<Rightarrow> bool" where
  "same_channel w w' \<longleftrightarrow> trace w = trace w' \<and> sends w = sends w'"

text \<open>
  \<open>grows P m\<close>: whatever the world, \<open>m\<close> only appends to the trace, and every action it
  appends satisfies \<open>P\<close>.
\<close>

definition grows :: "(action \<Rightarrow> bool) \<Rightarrow> 'a io \<Rightarrow> bool" where
  "grows P m \<longleftrightarrow> (\<forall>w. \<exists>ext. trace (snd (m w)) = trace w @ ext \<and> list_all P ext)"

text \<open>The actions of one session, begun in world \<open>w\<close>.\<close>

definition session_actions :: "env \<Rightarrow> world \<Rightarrow> action list" where
  "session_actions env w = drop (length (trace w)) (trace (snd (execute_code env w)))"

text \<open>
  \<open>yields m w r ext\<close>: run in \<open>w\<close>, \<open>m\<close> ends with outcome \<open>r\<close> after the actions
  \<open>ext\<close>; \<open>begins m w pre\<close>: run in \<open>w\<close>, \<open>m\<close> first performs the actions \<open>pre\<close>.
\<close>

definition yields :: "'a io \<Rightarrow> world \<Rightarrow> 'a outcome \<Rightarrow> action list \<Rightarrow> bool" where
  "yields m w r ext \<longleftrightarrow> fst (m w) = r \<and> trace (snd (m w)) = trace w @ ext"

definition begins :: "'a io \<Rightarrow> world \<Rightarrow> action list \<Rightarrow> bool" where
  "begins m w pre \<longleftrightarrow> (\<exists>post. trace (snd (m w)) = trace w @ pre @ post)"

section \<open>The lifecycle of a session\<close>

text \<open>
  The state machine of the specification, written down as a recogniser of frame
  sequences after the specification's words: a session is created, allocates its
  workspace and announces the start, compiles if the language asks for it, runs, and
  ends as completed or failed; no state is revisited and nothing follows a terminal
  state. An error frame ends the session, with one exception that the specification
  makes itself: the frame that reports the exit status of the compile phase, after
  which the run phase still opens.
\<close>

datatype phase =
  Created | Starting | Compiling | CompileFailed | Running | RunFailed | Completed | Failed

definition is_exit_report :: "string \<Rightarrow> bool" where
  "is_exit_report d \<longleftrightarrow> take 25 d = ''Process exited with code ''"

fun spec_step :: "phase \<Rightarrow> frame \<Rightarrow> phase option" where
  "spec_step Created (Status d) = (if d = ''Starting execution...'' then Some Starting else None)"
| "spec_step Created (Error d) = Some Failed"
| "spec_step Starting (Status d) =
     (if d = ''Compiling...'' then Some Compiling
      else if d = ''Running...'' then Some Running else None)"
| "spec_step Starting (Error d) = Some Failed"
| "spec_step Compiling (Output d) = Some Compiling"
| "spec_step Compiling (Status d) = (if d = ''Running...'' then Some Running else None)"
| "spec_step Compiling (Error d) = (if is_exit_report d then Some CompileFailed else Some Failed)"
| "spec_step CompileFailed (Status d) = (if d = ''Running...'' then Some Running else None)"
| "spec_step CompileFailed (Error d) = Some Failed"
| "spec_step Running (Output d) = Some Running"
| "spec_step Running (Status d) = (if d = ''Execution complete'' then Some Completed else None)"
| "spec_step Running (Error d) = Some Failed"
| "spec_step q f = None"

fun spec_run :: "phase \<Rightarrow> frame list \<Rightarrow> phase option" where
  "spec_run q [] = Some q"
| "spec_run q (f # fs) = (case spec_step q f of None \<Rightarrow> None | Some q' \<Rightarrow> spec_run q' fs)"

text \<open>
  The machine that the frames of the code follow. It differs from the machine of the
  specification in three ways: every error frame of the compile phase, not only the
  report of an exit status, leaves the run phase to open (\<open>CompileFailed\<close>); the error
  frame of the run phase is followed by the completion status (\<open>RunFailed\<close>); and an
  error frame can still come after the session has completed or failed.
\<close>

fun code_step :: "phase \<Rightarrow> frame \<Rightarrow> phase option" where
  "code_step Created (Status d) = (if d = ''Starting execution...'' then Some Starting else None)"
| "code_step Created (Error d) = Some Failed"
| "code_step Starting (Status d) =
     (if d = ''Compiling...'' then Some Compiling
      else if d = ''Running...'' then Some Running else None)"
| "code_step Starting (Error d) = Some Failed"
| "code_step Compiling (Output d) = Some Compiling"
| "code_step Compiling (Status d) = (if d = ''Running...'' then Some Running else None)"
| "code_step Compiling (Error d) = Some CompileFailed"
| "code_step CompileFailed (Status d) = (if d = ''Running...'' then Some Running else None)"
| "code_step CompileFailed (Error d) = Some Failed"
| "code_step Running (Output d) = Some Running"
| "code_step Running (Status d) = (if d = ''Execution complete'' then Some Completed else None)"
| "code_step Running (Error d) = Some RunFailed"
| "code_step RunFailed (Status d) = (if d = ''Execution complete'' then Some Completed else None)"
| "code_step RunFailed (Error d) = Some Failed"
| "code_step Completed (Error d) = Some Failed"
| "code_step Failed (Error d) = Some Failed"
| "code_step q f = None"

fun code_run :: "phase \<Rightarrow> frame list \<Rightarrow> phase option" where
  "code_run q [] = Some q"
| "code_run q (f # fs) = (case code_step q f of None \<Rightarrow> None | Some q' \<Rightarrow> code_run q' fs)"

text \<open>
  \<open>leads Q m N X H\<close>: when the frames sent so far have brought the machine from
  \<open>Created\<close> into a state of \<open>Q\<close>, the frames sent after \<open>m\<close> bring it into a state
  of \<open>N\<close> if \<open>m\<close> returns, of \<open>X\<close> if it raises, of \<open>H\<close> if it does not return.
\<close>

definition leads ::
  "phase set \<Rightarrow> 'a io \<Rightarrow> phase set \<Rightarrow> phase set \<Rightarrow> phase set \<Rightarrow> bool" where
  "leads Q m N X H \<longleftrightarrow>
     (\<forall>w q. code_run Created (frames w) = Some q \<and> q \<in> Q \<longrightarrow>
        (\<exists>q'. code_run Created (frames (snd (m w))) = Some q' \<and>
           (case fst (m w) of Returns x \<Rightarrow> q' \<in> N | Raises e \<Rightarrow> q' \<in> X | Hangs \<Rightarrow> q' \<in> H)))"

text \<open>
  The states in which the \<^verbatim>\<open>try\<close> suite of \<^verbatim>\<open>execute\<close> can raise, the states in
  which \<^verbatim>\<open>execute\<close> can return, the states from the opening of the run phase on, and
  the states in which no output frame is taken before the run phase opens.
\<close>

definition live :: "phase set" where
  "live = {Created, Starting, Compiling, CompileFailed, Running, RunFailed}"

definition ended :: "phase set" where
  "ended = {Completed, Failed, CompileFailed, RunFailed}"

definition running_or_later :: "phase set" where
  "running_or_later = {Running, RunFailed, Completed, Failed}"

definition closed_to_output :: "phase set" where
  "closed_to_output = {CompileFailed, RunFailed, Completed, Failed}"

section \<open>Basic facts\<close>

lemma send_json_ok:
  "send_fault env (sends w) = None \<Longrightarrow>
   send_json env f w = (Returns (), w\<lparr>trace := trace w @ [Send f], sends := Suc (sends w)\<rparr>)"
  by (simp add: send_json_def log_def)

lemma sent_append [simp]: "sent (xs @ ys) = sent xs @ sent ys"
  by (induction xs rule: sent.induct) simp_all

lemma spawned_append [simp]: "spawned (xs @ ys) = spawned xs @ spawned ys"
  by (induction xs rule: spawned.induct) simp_all

section \<open>An unsupported language\<close>

text \<open>
  Claim C2. When the language of the request is not a key of \<open>LANGUAGE_CONFIGS\<close> and the
  socket takes the frame, the whole session consists of accepting the socket, sending one
  error frame that names the language, and closing the socket: no directory is made, no
  container is run, no status or output frame is sent, and the handler returns.
\<close>

theorem unsupported_language:
  assumes "received env = Inr d"
    and "LANGUAGE_CONFIGS (dict_get d ''language'' ''python'') = None"
    and "send_fault env (sends w) = None"
  shows "execute_code env w =
    (Returns (),
     w\<lparr>trace := trace w @
          [Accept,
           Send (Error (''Unsupported language: '' @ dict_get d ''language'' ''python'')),
           Close],
       sends := Suc (sends w)\<rparr>)"
  using assms
  by (simp add: execute_code_def execute_def bind_def try_finally_def try_except_def
      accept_def close_def receive_json_def send_json_def log_def)

theorem unsupported_language_witness:
  "LANGUAGE_CONFIGS ''ruby'' = None \<and>
   execute_code (benign [''code'' \<mapsto> ''puts 1'', ''language'' \<mapsto> ''ruby'']) fresh =
     (Returns (),
      \<lparr>trace = [Accept, Send (Error ''Unsupported language: ruby''), Close],
       sends = 1, dirs = {}\<rparr>)"
  using unsupported_language
    [of "benign [''code'' \<mapsto> ''puts 1'', ''language'' \<mapsto> ''ruby'']"
        "[''code'' \<mapsto> ''puts 1'', ''language'' \<mapsto> ''ruby'']" fresh]
  by (simp add: benign_def fresh_def dict_get_def LANGUAGE_CONFIGS_def)

section \<open>Missing fields of the request\<close>

text \<open>Nothing but \<open>receive_json\<close> reads what was received.\<close>

lemma send_json_received [simp]: "send_json (env\<lparr>received := x\<rparr>) = send_json env"
  by (rule ext)+ (simp add: send_json_def)
lemma mkdir_received [simp]: "mkdir (env\<lparr>received := x\<rparr>) = mkdir env"
  by (rule ext)+ (simp add: mkdir_def)
lemma write_text_received [simp]: "write_text (env\<lparr>received := x\<rparr>) = write_text env"
  by (rule ext)+ (simp add: write_text_def)
lemma rmtree_received [simp]: "rmtree (env\<lparr>received := x\<rparr>) = rmtree env"
  by (rule ext)+ (simp add: rmtree_def)
lemma stream_logs_received [simp]:
  "stream_logs (env\<lparr>received := x\<rparr>) cs le = stream_logs env cs le"
  by (induction cs) simp_all
lemma run_container_received [simp]:
  "run_container (env\<lparr>received := x\<rparr>) = run_container env"
  by (rule ext)+ (simp add: run_container_def cong: if_cong)
lemma work_dir_of_received [simp]: "work_dir_of (env\<lparr>received := x\<rparr>) = work_dir_of env"
  by (simp add: work_dir_of_def)
lemma execute_body_received [simp]:
  "execute_body (env\<lparr>received := x\<rparr>) = execute_body env"
  by (rule ext)+ (simp add: execute_body_def cong: option.case_cong)
lemma execute_received [simp]: "execute (env\<lparr>received := x\<rparr>) = execute env"
  by (rule ext)+ (simp add: execute_def cong: option.case_cong)
lemma bind_receive_json:
  "bind (receive_json (env\<lparr>received := Inr d\<rparr>)) k = k d"
  by (rule ext) (simp add: bind_def receive_json_def)

lemma execute_code_unfold:
  "execute_code (env\<lparr>received := Inr d\<rparr>) =
     bind accept (\<lambda>_.
     try_finally
       (try_except
          (execute env (dict_get d ''code'' []) (dict_get d ''language'' ''python''))
          (\<lambda>e. send_json env (Error (''Server error: '' @ str e))))
       close)"
  by (simp add: execute_code_def bind_receive_json)

text \<open>
  Claim C9. A request without a \<^verbatim>\<open>"code"\<close> field is handled exactly as the same request
  with \<^verbatim>\<open>"code"\<close> set to the empty string, and a request without a \<^verbatim>\<open>"language"\<close> field
  exactly as the same request with \<^verbatim>\<open>"language"\<close> set to \<^verbatim>\<open>"python"\<close>: the handler
  fills the fields in and runs the request.
\<close>

theorem missing_fields_default:
  "(d ''code'' = None \<longrightarrow>
      execute_code (env\<lparr>received := Inr d\<rparr>) w =
      execute_code (env\<lparr>received := Inr (d(''code'' \<mapsto> []))\<rparr>) w) \<and>
   (d ''language'' = None \<longrightarrow>
      execute_code (env\<lparr>received := Inr d\<rparr>) w =
      execute_code (env\<lparr>received := Inr (d(''language'' \<mapsto> ''python''))\<rparr>) w)"
  by (simp add: execute_code_unfold dict_get_def)

lemma benign_received: "(benign d)\<lparr>received := Inr d'\<rparr> = benign d'"
  by (simp add: benign_def)

text \<open>
  The empty request in surroundings where nothing fails: the session writes the empty
  file \<^verbatim>\<open>main.py\<close> and runs it in the Python image.
\<close>

theorem missing_fields_default_witness:
  "execute_code (benign Map.empty) fresh =
   execute_code (benign [''code'' \<mapsto> [], ''language'' \<mapsto> ''python'']) fresh \<and>
   trace (snd (execute_code (benign Map.empty) fresh)) =
     [Accept, Mkdir ''/tmp/code_execution/u'',
      WriteText ''/tmp/code_execution/u/main.py'' [],
      Send (Status ''Starting execution...''), Send (Status ''Running...''),
      ContainerRun (run_args ''python:3.11-slim'' ''python main.py'' ''/tmp/code_execution/u''),
      Send (Status ''Execution complete''), Rmtree ''/tmp/code_execution/u'', Close]"
proof -
  have a: "execute_code (benign Map.empty) fresh = execute_code (benign [''code'' \<mapsto> []]) fresh"
    using missing_fields_default [of Map.empty "benign Map.empty" fresh]
    by (simp add: benign_received)
  have b: "execute_code (benign [''code'' \<mapsto> []]) fresh =
      execute_code (benign [''code'' \<mapsto> [], ''language'' \<mapsto> ''python'']) fresh"
    using missing_fields_default [of "[''code'' \<mapsto> []]" "benign Map.empty" fresh]
    by (simp add: benign_received)
  have c: "trace (snd (execute_code (benign [''code'' \<mapsto> [], ''language'' \<mapsto> ''python'']) fresh)) =
     [Accept, Mkdir ''/tmp/code_execution/u'',
      WriteText ''/tmp/code_execution/u/main.py'' [],
      Send (Status ''Starting execution...''), Send (Status ''Running...''),
      ContainerRun (run_args ''python:3.11-slim'' ''python main.py'' ''/tmp/code_execution/u''),
      Send (Status ''Execution complete''), Rmtree ''/tmp/code_execution/u'', Close]"
    by code_simp
  from a b c show ?thesis by simp
qed

section \<open>Removing the workspace\<close>

text \<open>Nothing but \<open>rmtree\<close> reads whether the removal fails.\<close>

lemma send_json_rmf [simp]: "send_json (env\<lparr>rmtree_fault := x\<rparr>) = send_json env"
  by (rule ext)+ (simp add: send_json_def)
lemma mkdir_rmf [simp]: "mkdir (env\<lparr>rmtree_fault := x\<rparr>) = mkdir env"
  by (rule ext)+ (simp add: mkdir_def)
lemma write_text_rmf [simp]: "write_text (env\<lparr>rmtree_fault := x\<rparr>) = write_text env"
  by (rule ext)+ (simp add: write_text_def)
lemma stream_logs_rmf [simp]:
  "stream_logs (env\<lparr>rmtree_fault := x\<rparr>) cs le = stream_logs env cs le"
  by (induction cs) simp_all
lemma run_container_rmf [simp]:
  "run_container (env\<lparr>rmtree_fault := x\<rparr>) = run_container env"
  by (rule ext)+ (simp add: run_container_def cong: if_cong)
lemma work_dir_of_rmf [simp]: "work_dir_of (env\<lparr>rmtree_fault := x\<rparr>) = work_dir_of env"
  by (simp add: work_dir_of_def)
lemma execute_body_rmf [simp]: "execute_body (env\<lparr>rmtree_fault := x\<rparr>) = execute_body env"
  by (rule ext)+ (simp add: execute_body_def cong: option.case_cong)
lemma receive_json_rmf [simp]: "receive_json (env\<lparr>rmtree_fault := x\<rparr>) = receive_json env"
  by (rule ext)+ (simp add: receive_json_def)

lemma rmtree_True:
  "rmtree env d True w =
     (case rmtree_fault env of
        None \<Rightarrow> Returns ()
      | Some (OSError m) \<Rightarrow> Returns ()
      | Some (NotOSError m) \<Rightarrow> Raises (OtherError m),
      w\<lparr>trace := trace w @ [Rmtree d],
        dirs := (if rmtree_fault env = None then dirs w - {d} else dirs w)\<rparr>)"
  by (simp add: rmtree_def log_def split: option.splits rm_fault.splits)

lemma rmtree_ignore:
  "\<forall>m. rmtree_fault env \<noteq> Some (NotOSError m) \<Longrightarrow>
   rmtree env d True w =
     (Returns (), w\<lparr>trace := trace w @ [Rmtree d],
                    dirs := (if rmtree_fault env = None then dirs w - {d} else dirs w)\<rparr>)"
  by (simp add: rmtree_True split: option.splits rm_fault.splits)

lemma rmtree_frames: "frames (snd (rmtree env d b w)) = frames w"
  by (simp add: rmtree_def log_def frames_def split: option.splits rm_fault.splits)

lemma rmtree_halts: "fst (rmtree env d b w) \<noteq> Hangs"
  by (simp add: rmtree_def split: option.splits rm_fault.splits)

lemma try_finally_rmtree_frames:
  "sent (trace (snd (try_finally m (rmtree env d b) w))) = sent (trace (snd (m w)))"
proof (cases "m w")
  case (Pair r w1)
  obtain r2 w2 where f: "rmtree env d b w1 = (r2, w2)" by (cases "rmtree env d b w1")
  with rmtree_frames [of env d b w1] have "sent (trace w2) = sent (trace w1)"
    by (simp add: frames_def)
  with Pair f show ?thesis
    by (cases r; cases r2) (simp_all add: try_finally_def)
qed

lemma send_json_same:
  "same_channel w w' \<Longrightarrow>
   fst (send_json env f w) = fst (send_json env f w') \<and>
   same_channel (snd (send_json env f w)) (snd (send_json env f w'))"
  by (simp add: same_channel_def send_json_def log_def split: option.splits)

lemma execute_same:
  "fst (execute (env\<lparr>rmtree_fault := Some (OSError m)\<rparr>) code language w) =
     fst (execute (env\<lparr>rmtree_fault := None\<rparr>) code language w) \<and>
   same_channel (snd (execute (env\<lparr>rmtree_fault := Some (OSError m)\<rparr>) code language w))
     (snd (execute (env\<lparr>rmtree_fault := None\<rparr>) code language w))"
proof (cases "LANGUAGE_CONFIGS language")
  case None
  then show ?thesis by (simp add: execute_def same_channel_def)
next
  case (Some cfg)
  show ?thesis
  proof (cases "mkdir env (work_dir_of env) w")
    case (Pair r w1)
    show ?thesis
    proof (cases "try_except (execute_body env cfg code language) (\<lambda>e. send_json env (Error (str e))) w1")
      case (Pair r2 w2)
      with Some \<open>mkdir env (work_dir_of env) w = (r, w1)\<close> show ?thesis
        by (cases r; cases r2)
          (simp_all add: execute_def bind_def try_finally_def rmtree_True same_channel_def)
    qed
  qed
qed

lemma handler_same:
  assumes "fst p = fst p'" and "same_channel (snd p) (snd p')"
  shows "fst (try_finally (try_except (\<lambda>_. p) (\<lambda>e. send_json env (f e))) close w) =
         fst (try_finally (try_except (\<lambda>_. p') (\<lambda>e. send_json env (f e))) close w) \<and>
         same_channel (snd (try_finally (try_except (\<lambda>_. p) (\<lambda>e. send_json env (f e))) close w))
           (snd (try_finally (try_except (\<lambda>_. p') (\<lambda>e. send_json env (f e))) close w))"
proof (cases p; cases p')
  fix r w1 r' w1'
  assume p: "p = (r, w1)" "p' = (r', w1')"
  with assms have eq: "r' = r" and sc: "same_channel w1 w1'" by simp_all
  show ?thesis
  proof (cases r)
    case (Raises e)
    from send_json_same [OF sc, of env "f e"] show ?thesis
      by (cases "send_json env (f e) w1"; cases "send_json env (f e) w1'")
        (auto simp: p eq Raises try_finally_def try_except_def close_def log_def same_channel_def
          split: outcome.splits)
  qed (use sc in \<open>simp_all add: p eq try_finally_def try_except_def close_def log_def
      same_channel_def\<close>)
qed

lemma execute_code_same:
  "fst (execute_code (env\<lparr>rmtree_fault := Some (OSError m)\<rparr>) w) =
     fst (execute_code (env\<lparr>rmtree_fault := None\<rparr>) w) \<and>
   same_channel (snd (execute_code (env\<lparr>rmtree_fault := Some (OSError m)\<rparr>) w))
     (snd (execute_code (env\<lparr>rmtree_fault := None\<rparr>) w))"
proof (cases "received env")
  case (Inl e)
  then show ?thesis
    by (simp add: execute_code_def bind_def accept_def receive_json_def same_channel_def
        try_except_def try_finally_def)
next
  case (Inr d)
  let ?c = "dict_get d ''code'' []" and ?l = "dict_get d ''language'' ''python''"
  let ?a = "env\<lparr>rmtree_fault := Some (OSError m)\<rparr>" and ?b = "env\<lparr>rmtree_fault := None\<rparr>"
  have *: "execute_code env' w =
      try_finally (try_except (\<lambda>_. execute env' ?c ?l (log Accept w))
        (\<lambda>e. send_json env' (Error (''Server error: '' @ str e)))) close (log Accept w)"
    if "received env' = Inr d" for env'
    using that
    by (simp add: execute_code_def bind_def accept_def receive_json_def try_except_def
        try_finally_def)
  note es = execute_same [where env = env and m = m and code = ?c and language = ?l
      and w = "log Accept w"]
  have "fst (try_finally (try_except (\<lambda>_. execute ?a ?c ?l (log Accept w))
          (\<lambda>e. send_json env (Error (''Server error: '' @ str e)))) close (log Accept w)) =
        fst (try_finally (try_except (\<lambda>_. execute ?b ?c ?l (log Accept w))
          (\<lambda>e. send_json env (Error (''Server error: '' @ str e)))) close (log Accept w)) \<and>
        same_channel
          (snd (try_finally (try_except (\<lambda>_. execute ?a ?c ?l (log Accept w))
            (\<lambda>e. send_json env (Error (''Server error: '' @ str e)))) close (log Accept w)))
          (snd (try_finally (try_except (\<lambda>_. execute ?b ?c ?l (log Accept w))
            (\<lambda>e. send_json env (Error (''Server error: '' @ str e)))) close (log Accept w)))"
    by (rule handler_same) (use es in simp_all)
  then show ?thesis
    by (simp add: * Inr)
qed

text \<open>
  Claim C10, as stated, does not hold. \<^verbatim>\<open>ignore_errors=True\<close> silences the
  \<^verbatim>\<open>OSError\<close>s of the removal only. A program that leaves a chain of directories deeper
  than the recursion limit in its workspace makes \<^verbatim>\<open>shutil.rmtree\<close> raise
  \<^verbatim>\<open>RecursionError\<close>: the exception leaves \<^verbatim>\<open>execute\<close> after the completion status has
  been sent, and the handler of \<^verbatim>\<open>execute_code\<close> sends an error frame for it.
\<close>

theorem cleanup_can_raise:
  "fst (execute deep_tree
      ''import os; [(os.mkdir(chr(100)), os.chdir(chr(100))) for i in range(1500)]''
      ''python'' fresh) =
     Raises (OtherError ''maximum recursion depth exceeded'') \<and>
   frames (snd (execute_code deep_tree fresh)) =
     [Status ''Starting execution...'', Status ''Running...'', Status ''Execution complete'',
      Error ''Server error: maximum recursion depth exceeded'']"
  by code_simp

text \<open>
  Claim C10, amended. When the removal of the workspace fails with an \<^verbatim>\<open>OSError\<close>, the
  session ends with the same outcome, after the same actions and the same frames, as
  the session in which the removal succeeds; the removal step itself returns, sends no
  frame and leaves the directories as they are.
\<close>

theorem cleanup_ignores_os_errors:
  "fst (execute_code (env\<lparr>rmtree_fault := Some (OSError m)\<rparr>) w) =
     fst (execute_code (env\<lparr>rmtree_fault := None\<rparr>) w) \<and>
   trace (snd (execute_code (env\<lparr>rmtree_fault := Some (OSError m)\<rparr>) w)) =
     trace (snd (execute_code (env\<lparr>rmtree_fault := None\<rparr>) w)) \<and>
   fst (rmtree (env\<lparr>rmtree_fault := Some (OSError m)\<rparr>) d True w) = Returns () \<and>
   frames (snd (rmtree (env\<lparr>rmtree_fault := Some (OSError m)\<rparr>) d True w)) = frames w \<and>
   dirs (snd (rmtree (env\<lparr>rmtree_fault := Some (OSError m)\<rparr>) d True w)) = dirs w"
proof -
  have a: "fst (execute_code (env\<lparr>rmtree_fault := Some (OSError m)\<rparr>) w) =
     fst (execute_code (env\<lparr>rmtree_fault := None\<rparr>) w) \<and>
     trace (snd (execute_code (env\<lparr>rmtree_fault := Some (OSError m)\<rparr>) w)) =
     trace (snd (execute_code (env\<lparr>rmtree_fault := None\<rparr>) w))"
    using execute_code_same [where env = env and m = m and w = w] by (simp add: same_channel_def)
  have b: "fst (rmtree (env\<lparr>rmtree_fault := Some (OSError m)\<rparr>) d True w) = Returns () \<and>
     frames (snd (rmtree (env\<lparr>rmtree_fault := Some (OSError m)\<rparr>) d True w)) = frames w \<and>
     dirs (snd (rmtree (env\<lparr>rmtree_fault := Some (OSError m)\<rparr>) d True w)) = dirs w"
    by (simp add: rmtree_True frames_def)
  from a b show ?thesis by simp
qed

section \<open>What a computation adds to the trace\<close>

lemma growsI:
  "(\<And>w. \<exists>ext. trace (snd (m w)) = trace w @ ext \<and> list_all P ext) \<Longrightarrow> grows P m"
  by (simp add: grows_def)

lemma growsD:
  "grows P m \<Longrightarrow> \<exists>ext. trace (snd (m w)) = trace w @ ext \<and> list_all P ext"
  by (simp add: grows_def)

lemma grows_return [intro!]: "grows P (return x)"
  by (simp add: grows_def return_def)

lemma grows_raise [intro!]: "grows P (raise e)"
  by (simp add: grows_def raise_def)

lemma grows_hang [intro!]: "grows P (\<lambda>w. (Hangs, w))"
  by (simp add: grows_def)

lemma grows_bind [intro!]:
  assumes "grows P m" and "\<And>x. grows P (k x)"
  shows "grows P (bind m k)"
proof (rule growsI)
  fix w
  obtain r w1 where m: "m w = (r, w1)" by (cases "m w")
  from growsD [OF assms(1), of w] m obtain e1 where e1: "trace w1 = trace w @ e1" "list_all P e1"
    by auto
  show "\<exists>ext. trace (snd (bind m k w)) = trace w @ ext \<and> list_all P ext"
  proof (cases r)
    case (Returns x)
    from growsD [OF assms(2), of x w1] obtain e2
      where "trace (snd (k x w1)) = trace w1 @ e2" "list_all P e2" by auto
    with e1 m Returns show ?thesis by (simp add: bind_def)
  qed (use e1 m in \<open>simp_all add: bind_def\<close>)
qed

lemma grows_try_except [intro!]:
  assumes "grows P m" and "\<And>e. grows P (h e)"
  shows "grows P (try_except m h)"
proof (rule growsI)
  fix w
  obtain r w1 where m: "m w = (r, w1)" by (cases "m w")
  from growsD [OF assms(1), of w] m obtain e1 where e1: "trace w1 = trace w @ e1" "list_all P e1"
    by auto
  show "\<exists>ext. trace (snd (try_except m h w)) = trace w @ ext \<and> list_all P ext"
  proof (cases r)
    case (Raises e)
    from growsD [OF assms(2), of e w1] obtain e2
      where "trace (snd (h e w1)) = trace w1 @ e2" "list_all P e2" by auto
    with e1 m Raises show ?thesis by (simp add: try_except_def)
  qed (use e1 m in \<open>simp_all add: try_except_def\<close>)
qed

lemma grows_try_except_APIError [intro!]:
  assumes "grows P m" and "\<And>e. grows P (h e)"
  shows "grows P (try_except_APIError m h)"
proof (rule growsI)
  fix w
  obtain r w1 where m: "m w = (r, w1)" by (cases "m w")
  from growsD [OF assms(1), of w] m obtain e1 where e1: "trace w1 = trace w @ e1" "list_all P e1"
    by auto
  show "\<exists>ext. trace (snd (try_except_APIError m h w)) = trace w @ ext \<and> list_all P ext"
  proof (cases r)
    case (Raises e)
    show ?thesis
    proof (cases e)
      case (APIError s)
      from growsD [OF assms(2), of e w1] obtain e2
        where "trace (snd (h e w1)) = trace w1 @ e2" "list_all P e2" by auto
      with e1 m Raises APIError show ?thesis by (simp add: try_except_APIError_def)
    qed (use e1 m Raises in \<open>simp_all add: try_except_APIError_def\<close>)
  qed (use e1 m in \<open>simp_all add: try_except_APIError_def\<close>)
qed

lemma grows_try_finally [intro!]:
  assumes "grows P m" and "grows P fin"
  shows "grows P (try_finally m fin)"
proof (rule growsI)
  fix w
  obtain r w1 where m: "m w = (r, w1)" by (cases "m w")
  from growsD [OF assms(1), of w] m obtain e1 where e1: "trace w1 = trace w @ e1" "list_all P e1"
    by auto
  obtain r2 w2 where f: "fin w1 = (r2, w2)" by (cases "fin w1")
  from growsD [OF assms(2), of w1] f obtain e2 where e2: "trace w2 = trace w1 @ e2" "list_all P e2"
    by auto
  from e1 e2 m f show "\<exists>ext. trace (snd (try_finally m fin w)) = trace w @ ext \<and> list_all P ext"
    by (cases r; cases r2) (simp_all add: try_finally_def)
qed

lemma grows_send_json [intro!]: "P (Send f) \<Longrightarrow> grows P (send_json env f)"
  by (simp add: grows_def send_json_def log_def split: option.splits)

lemma grows_mkdir [intro!]: "P (Mkdir d) \<Longrightarrow> grows P (mkdir env d)"
  by (simp add: grows_def mkdir_def log_def split: option.splits)

lemma grows_write_text [intro!]: "P (WriteText p s) \<Longrightarrow> grows P (write_text env p s)"
  by (simp add: grows_def write_text_def log_def split: option.splits)

lemma grows_rmtree [intro!]: "P (Rmtree d) \<Longrightarrow> grows P (rmtree env d b)"
  by (simp add: grows_def rmtree_def log_def split: option.splits rm_fault.splits)

lemma grows_accept [intro!]: "P Accept \<Longrightarrow> grows P accept"
  by (simp add: grows_def accept_def log_def)

lemma grows_close [intro!]: "P Close \<Longrightarrow> grows P close"
  by (simp add: grows_def close_def log_def)

lemma grows_receive_json [intro!]: "grows P (receive_json env)"
  by (simp add: grows_def receive_json_def split: sum.splits)

lemma grows_format [intro!]: "grows P (format t kw)"
  by (simp add: grows_def format_def split: sum.splits)

lemma grows_decode [intro!]: "grows P (decode c)"
  by (simp add: grows_def decode_def split: chunk.splits)

lemma grows_container_wait [intro!]: "grows P (container_wait wr)"
  by (simp add: grows_def container_wait_def split: wait_result.splits)

lemma grows_containers_run [intro!]: "P (ContainerRun a) \<Longrightarrow> grows P (containers_run b a)"
  by (simp add: grows_def containers_run_def log_def split: unit_behaviour.splits)

lemma grows_stream_logs [intro!]:
  "(\<And>s. P (Send (Output s))) \<Longrightarrow> grows P (stream_logs env cs le)"
  by (induction cs) (auto split: log_end.splits)

lemma grows_run_container:
  assumes "P (Send (Status msg))" and "\<And>s. P (Send (Output s))" and "\<And>d. P (Send (Error d))"
    and "P (ContainerRun (run_args img cmd wd))"
  shows "grows P (run_container env b img cmd wd msg)"
  unfolding run_container_def using assms
  by (auto split: prod.splits)

lemma grows_execute_body [intro!]:
  assumes "\<And>f. P (Send f)" and "\<And>cmd. P (ContainerRun (run_args (cfg_image cfg) cmd (work_dir_of env)))"
    and "\<And>p s. P (WriteText p s)"
  shows "grows P (execute_body env cfg code language)"
  unfolding execute_body_def Let_def using assms
  by (auto split: option.splits intro!: grows_run_container)

lemma grows_execute [intro!]:
  assumes "\<And>f. P (Send f)" and "\<And>img cmd. P (ContainerRun (run_args img cmd (work_dir_of env)))"
    and "\<And>p s. P (WriteText p s)" and "P (Mkdir (work_dir_of env))" and "P (Rmtree (work_dir_of env))"
  shows "grows P (execute env code language)"
  unfolding execute_def using assms
  by (auto split: option.splits)

lemma grows_execute_code [intro!]:
  assumes "\<And>f. P (Send f)" and "\<And>img cmd. P (ContainerRun (run_args img cmd (work_dir_of env)))"
    and "\<And>p s. P (WriteText p s)" and "P (Mkdir (work_dir_of env))" and "P (Rmtree (work_dir_of env))"
    and "P Accept" and "P Close"
  shows "grows P (execute_code env)"
  unfolding execute_code_def using assms
  by auto

lemma spawned_mem: "a \<in> set (spawned xs) \<longleftrightarrow> ContainerRun a \<in> set xs"
  by (induction xs rule: spawned.induct) auto

lemma sent_mem: "f \<in> set (sent xs) \<longleftrightarrow> Send f \<in> set xs"
  by (induction xs rule: sent.induct) auto

lemma grows_actions:
  assumes "grows P m" and "m w = (r, w')"
  shows "list_all P (drop (length (trace w)) (trace w'))"
  using growsD [OF assms(1), of w] assms(2) by auto

lemma grows_trace:
  assumes "grows P m" and "m w = (r, w')"
  shows "trace w' = trace w @ drop (length (trace w)) (trace w')"
  using growsD [OF assms(1), of w] assms(2) by auto

lemma session_trace: "trace (snd (execute_code env w)) = trace w @ session_actions env w"
proof -
  have "grows (\<lambda>a. True) (execute_code env)" by (rule grows_execute_code) simp_all
  from grows_trace [OF this, of w] show ?thesis
    by (cases "execute_code env w") (simp add: session_actions_def)
qed

section \<open>The resource policy\<close>

text \<open>
  Claim C5. Every container that any session runs, in whatever language and whatever
  the surroundings do, is run with the same arguments but for image and command: no
  network, a memory limit of \<^verbatim>\<open>256m\<close>, a CPU quota of 50000 in a period of 100000
  (half of one core), the workspace of the session mounted read-write at
  \<^verbatim>\<open>/workspace\<close>, which is the working directory, the command wrapped in
  \<^verbatim>\<open>sh -c '...'\<close>, and removal of the container when it stops.
\<close>

theorem fixed_resource_policy:
  assumes "a \<in> set (spawned (session_actions env w))"
  shows "network_mode a = ''none'' \<and> mem_limit a = ''256m'' \<and>
         cpu_period a = 100000 \<and> cpu_quota a = 50000 \<and> 2 * cpu_quota a = cpu_period a \<and>
         volumes a = [(work_dir_of env, ''/workspace'', ''rw'')] \<and>
         working_dir a = ''/workspace'' \<and>
         (\<exists>cmd. command a = ''sh -c '' @ [CHR 0x27] @ cmd @ [CHR 0x27]) \<and>
         remove a"
proof -
  let ?P = "\<lambda>x. \<forall>a. x = ContainerRun a \<longrightarrow> (\<exists>img cmd. a = run_args img cmd (work_dir_of env))"
  have "grows ?P (execute_code env)" by (rule grows_execute_code) auto
  from grows_actions [OF this, of w] have "list_all ?P (session_actions env w)"
    by (cases "execute_code env w") (simp add: session_actions_def)
  moreover from assms have "ContainerRun a \<in> set (session_actions env w)"
    by (simp add: spawned_mem)
  ultimately have "\<exists>img cmd. a = run_args img cmd (work_dir_of env)"
    unfolding list_all_iff by blast
  then obtain img cmd where "a = run_args img cmd (work_dir_of env)"
    by blast
  then show ?thesis by (auto simp: run_args_def)
qed

lemma session_cpp:
  "spawned (session_actions (benign [''language'' \<mapsto> ''cpp'']) fresh) =
     [run_args ''gcc:latest'' ''g++ -o program main.cpp -std=c++17'' ''/tmp/code_execution/u'',
      run_args ''gcc:latest'' ''./program'' ''/tmp/code_execution/u'']"
  by code_simp

theorem fixed_resource_policy_witness:
  "run_args ''gcc:latest'' ''./program'' ''/tmp/code_execution/u''
     \<in> set (spawned (session_actions (benign [''language'' \<mapsto> ''cpp'']) fresh)) \<and>
   mem_limit (run_args ''gcc:latest'' ''./program'' ''/tmp/code_execution/u'') = ''256m'' \<and>
   network_mode (run_args ''gcc:latest'' ''./program'' ''/tmp/code_execution/u'') = ''none''"
proof -
  have m: "run_args ''gcc:latest'' ''./program'' ''/tmp/code_execution/u''
     \<in> set (spawned (session_actions (benign [''language'' \<mapsto> ''cpp'']) fresh))"
    by (simp add: session_cpp)
  from fixed_resource_policy [OF m] m show ?thesis by simp
qed

section \<open>Sessions on a channel that takes every frame\<close>

lemma configs_cases:
  assumes "LANGUAGE_CONFIGS language = Some cfg"
  shows "language = ''python'' \<and> cfg = \<lparr>cfg_image = ''python:3.11-slim'', file_ext = ''py'',
            compile_cmd = None, run_cmd = ''python {filename}''\<rparr> \<or>
         language = ''cpp'' \<and> cfg = \<lparr>cfg_image = ''gcc:latest'', file_ext = ''cpp'',
            compile_cmd = Some ''g++ -o program {filename} -std=c++17'',
            run_cmd = ''./program''\<rparr> \<or>
         language = ''java'' \<and> cfg = \<lparr>cfg_image = ''eclipse-temurin:17-jre'', file_ext = ''java'',
            compile_cmd = Some ''javac {filename}'', run_cmd = ''java {classname}''\<rparr>"
  using assms by (auto simp: LANGUAGE_CONFIGS_def split: if_splits)

text \<open>The commands of a language: the compile command, if any, and the run command.\<close>

lemma formats:
  assumes "LANGUAGE_CONFIGS language = Some cfg"
  shows "\<exists>rcmd. format_from (run_cmd cfg) None
            [(''filename'', ''main.'' @ file_ext cfg),
             (''classname'', if language = ''java'' then ''main'' else ''None'')] = Inr rcmd"
    and "compile_cmd cfg = Some t \<Longrightarrow>
         \<exists>cmd. format_from t None [(''filename'', ''main.'' @ file_ext cfg)] = Inr cmd"
  using configs_cases [OF assms] by auto

lemma stream_logs_ok:
  assumes "\<forall>k. send_fault env k = None"
  shows "stream_logs env (map Utf8 ss) le w =
     (case le of StreamEnds \<Rightarrow> Returns () | StreamRaises e \<Rightarrow> Raises e | StreamBlocks \<Rightarrow> Hangs,
      w\<lparr>trace := trace w @ map (\<lambda>s. Send (Output s)) ss, sends := sends w + length ss\<rparr>)"
proof (induction ss arbitrary: w)
  case Nil
  show ?case by (cases le) (simp_all add: return_def raise_def)
next
  case (Cons s ss)
  from assms show ?case
    by (simp add: bind_def decode_def send_json_def log_def Cons.IH)
qed

lemma run_container_ok:
  assumes "\<forall>k. send_fault env k = None"
  shows "run_container env (Started (map Utf8 ss) StreamEnds (ExitStatus n)) img cmd wd msg w =
     (Returns (),
      w\<lparr>trace := trace w @ Send (Status msg) # ContainerRun (run_args img cmd wd) #
           map (\<lambda>s. Send (Output s)) ss @
           (if n = 0 then [] else [Send (Error (''Process exited with code '' @ str_int n))]),
        sends := sends w + length ss + (if n = 0 then 1 else 2)\<rparr>)"
  using assms
  by (simp add: run_container_def bind_def send_json_def log_def containers_run_def
      try_except_APIError_def stream_logs_ok container_wait_def return_def)

lemma run_container_docker_error:
  assumes "\<forall>k. send_fault env k = None"
    and "le = StreamRaises (APIError m) \<or> le = StreamEnds \<and> wr = WaitRaises (APIError m)"
  shows "run_container env (Started (map Utf8 ss) le wr) img cmd wd msg w =
     (Returns (),
      w\<lparr>trace := trace w @ Send (Status msg) # ContainerRun (run_args img cmd wd) #
           map (\<lambda>s. Send (Output s)) ss @ [Send (Error (''Docker error: '' @ m))],
        sends := sends w + length ss + 2\<rparr>)"
  using assms
  by (auto simp add: run_container_def bind_def send_json_def log_def containers_run_def
      try_except_APIError_def stream_logs_ok container_wait_def return_def)

lemma run_container_create_raises:
  assumes "\<forall>k. send_fault env k = None"
  shows "run_container env (CreateRaises e) img cmd wd msg w =
     (Raises e,
      w\<lparr>trace := trace w @ [Send (Status msg), ContainerRun (run_args img cmd wd)],
        sends := Suc (sends w)\<rparr>)"
  using assms
  by (simp add: run_container_def bind_def send_json_def log_def containers_run_def)

lemma sent_outputs [simp]: "sent (map (\<lambda>s. Send (Output s)) ss) = map Output ss"
  by (induction ss) simp_all

lemma spawned_outputs [simp]: "spawned (map (\<lambda>s. Send (Output s)) ss) = []"
  by (induction ss) simp_all

lemma sent_if: "sent (if c then xs else ys) = (if c then sent xs else sent ys)"
  by simp

lemma mkdir_ok:
  "d \<notin> dirs w \<Longrightarrow> mkdir_fault env = None \<Longrightarrow>
   mkdir env d w = (Returns (), w\<lparr>trace := trace w @ [Mkdir d], dirs := insert d (dirs w)\<rparr>)"
  by (simp add: mkdir_def log_def)

lemma write_text_ok:
  "write_fault env = None \<Longrightarrow>
   write_text env p s w = (Returns (), w\<lparr>trace := trace w @ [WriteText p s]\<rparr>)"
  by (simp add: write_text_def log_def)

lemma execute_Some:
  "LANGUAGE_CONFIGS language = Some cfg \<Longrightarrow>
   execute env code language =
     bind (mkdir env (work_dir_of env)) (\<lambda>_.
       try_finally
         (try_except (execute_body env cfg code language) (\<lambda>e. send_json env (Error (str e))))
         (rmtree env (work_dir_of env) True))"
  by (simp add: execute_def)

lemmas session_simps =
  execute_body_def bind_def mkdir_ok write_text_ok send_json_ok try_finally_rmtree_frames
  try_except_def format_def return_def Let_def

lemma execute_terminating:
  assumes cfg: "LANGUAGE_CONFIGS language = Some cfg"
    and fs: "work_dir_of env \<notin> dirs w" "mkdir_fault env = None" "write_fault env = None"
    and chan: "\<forall>k. send_fault env k = None"
    and cu: "compile_cmd cfg = None \<or>
             compile_unit env = Started (map Utf8 cs) StreamEnds (ExitStatus m)"
    and ru: "run_unit env = Started (map Utf8 ss) StreamEnds (ExitStatus n)"
  shows "frames (snd (execute env code language w)) = frames w @
      Status ''Starting execution...'' #
      (case compile_cmd cfg of
         None \<Rightarrow> []
       | Some t \<Rightarrow> Status ''Compiling...'' # map Output cs @
           (if m = 0 then [] else [Error (''Process exited with code '' @ str_int m)])) @
      Status ''Running...'' # map Output ss @
      (if n = 0 then [] else [Error (''Process exited with code '' @ str_int n)]) @
      [Status ''Execution complete'']"
proof -
  from formats(1) [OF cfg] obtain rcmd
    where r: "format_from (run_cmd cfg) None
            [(''filename'', ''main.'' @ file_ext cfg),
             (''classname'', if language = ''java'' then ''main'' else ''None'')] = Inr rcmd"
    by blast
  show ?thesis
  proof (cases "compile_cmd cfg")
    case None
    with fs chan ru r show ?thesis
      by (simp add: execute_Some [OF cfg] session_simps run_container_ok frames_def sent_if
          split del: if_split cong: if_cong)
  next
    case (Some t)
    from formats(2) [OF cfg Some] obtain cmd
      where c: "format_from t None [(''filename'', ''main.'' @ file_ext cfg)] = Inr cmd"
      by blast
    from Some cu have "compile_unit env = Started (map Utf8 cs) StreamEnds (ExitStatus m)"
      by simp
    with Some fs chan ru r c show ?thesis
      by (simp add: execute_Some [OF cfg] session_simps run_container_ok frames_def sent_if
          split del: if_split cong: if_cong)
  qed
qed

section \<open>How a session begins\<close>

lemma begins_grows: "grows P m \<Longrightarrow> begins m w []"
  using growsD [of P m w] by (auto simp: begins_def)

lemma begins_bind_ret:
  assumes "yields m w (Returns x) e1" and "begins (k x) (snd (m w)) e2"
  shows "begins (bind m k) w (e1 @ e2)"
  using assms by (cases "m w") (auto simp: yields_def begins_def bind_def)

lemma begins_bind_grows:
  assumes "begins m w pre" and "\<And>x. grows P (k x)"
  shows "begins (bind m k) w pre"
proof (cases "m w")
  case (Pair r w1)
  from assms(1) Pair obtain post where p: "trace w1 = trace w @ pre @ post"
    by (auto simp: begins_def)
  show ?thesis
  proof (cases r)
    case (Returns x)
    from growsD [OF assms(2), of x w1] obtain e where "trace (snd (k x w1)) = trace w1 @ e"
      by blast
    with p Pair Returns show ?thesis by (simp add: begins_def bind_def)
  qed (use p Pair in \<open>simp_all add: begins_def bind_def\<close>)
qed

lemma begins_try_except:
  assumes "begins m w pre" and "\<And>e. grows P (h e)"
  shows "begins (try_except m h) w pre"
proof (cases "m w")
  case (Pair r w1)
  from assms(1) Pair obtain post where p: "trace w1 = trace w @ pre @ post"
    by (auto simp: begins_def)
  show ?thesis
  proof (cases r)
    case (Raises e)
    from growsD [OF assms(2), of e w1] obtain e' where "trace (snd (h e w1)) = trace w1 @ e'"
      by blast
    with p Pair Raises show ?thesis by (simp add: begins_def try_except_def)
  qed (use p Pair in \<open>simp_all add: begins_def try_except_def\<close>)
qed

lemma begins_try_finally:
  assumes "begins m w pre" and "grows P fin"
  shows "begins (try_finally m fin) w pre"
proof (cases "m w")
  case (Pair r w1)
  from assms(1) Pair obtain post where p: "trace w1 = trace w @ pre @ post"
    by (auto simp: begins_def)
  obtain r2 w2 where f: "fin w1 = (r2, w2)" by (cases "fin w1")
  from growsD [OF assms(2), of w1] f obtain e where "trace w2 = trace w1 @ e"
    by auto
  with p Pair f show ?thesis
    by (cases r; cases r2) (simp_all add: begins_def try_finally_def)
qed

lemma yields_send_json:
  "send_fault env (sends w) = None \<Longrightarrow> yields (send_json env f) w (Returns ()) [Send f]"
  by (simp add: yields_def send_json_ok)

lemma yields_write_text:
  "write_fault env = None \<Longrightarrow> yields (write_text env p s) w (Returns ()) [WriteText p s]"
  by (simp add: yields_def write_text_ok)

lemma yields_mkdir:
  "d \<notin> dirs w \<Longrightarrow> mkdir_fault env = None \<Longrightarrow> yields (mkdir env d) w (Returns ()) [Mkdir d]"
  by (simp add: yields_def mkdir_ok)

lemma yields_format:
  "format_from t None kw = Inr s \<Longrightarrow> yields (format t kw) w (Returns s) []"
  by (simp add: yields_def format_def)

lemma yields_run_container:
  assumes "\<forall>k. send_fault env k = None"
  shows "yields (run_container env (Started (map Utf8 ss) StreamEnds (ExitStatus n)) img cmd wd msg)
     w (Returns ())
     ([Send (Status msg), ContainerRun (run_args img cmd wd)] @ map (\<lambda>s. Send (Output s)) ss @
      (if n = 0 then [] else [Send (Error (''Process exited with code '' @ str_int n))]))"
  by (simp add: yields_def run_container_ok [OF assms])

lemma yields_bind:
  assumes "yields m w (Returns x) e1" and "yields (k x) (snd (m w)) r e2"
  shows "yields (bind m k) w r (e1 @ e2)"
  using assms by (cases "m w") (auto simp: yields_def bind_def)

lemma begins_run_container:
  assumes "\<forall>k. send_fault env k = None"
  shows "begins (run_container env b img cmd wd msg) w
     [Send (Status msg), ContainerRun (run_args img cmd wd)]"
proof (cases b)
  case (CreateRaises e)
  with assms show ?thesis by (simp add: begins_def run_container_create_raises)
next
  case (Started cs le wr)
  let ?rest = "try_except_APIError
       (bind (stream_logs env cs le) (\<lambda>_.
        bind (container_wait wr) (\<lambda>exit_code.
        if exit_code \<noteq> 0
        then send_json env (Error (''Process exited with code '' @ str_int exit_code))
        else return ())))
       (\<lambda>e. send_json env (Error (''Docker error: '' @ str e)))"
  let ?w = "w\<lparr>sends := Suc (sends w),
             trace := trace w @ [Send (Status msg), ContainerRun (run_args img cmd wd)]\<rparr>"
  have "grows (\<lambda>a. True) ?rest" by auto
  from growsD [OF this, of ?w] obtain e where "trace (snd (?rest ?w)) = trace ?w @ e" by blast
  moreover from assms Started have "run_container env b img cmd wd msg w = ?rest ?w"
    by (simp add: run_container_def bind_def send_json_ok containers_run_def log_def)
  ultimately show ?thesis by (simp add: begins_def)
qed

section \<open>A failing compile phase\<close>

text \<open>
  Claim C3. In a language with a compile command, when the compile unit prints its log
  and exits with a status \<open>n\<close> other than 0, the session sends the error frame
  \<^verbatim>\<open>Process exited with code n\<close> and goes on: the next actions are the status frame
  \<^verbatim>\<open>Running...\<close> and the creation of the run unit, whatever that unit then does.
\<close>

theorem compile_failure_does_not_abort:
  assumes cfg: "LANGUAGE_CONFIGS language = Some cfg"
    and cc: "compile_cmd cfg = Some t"
    and fs: "work_dir_of env \<notin> dirs w" "mkdir_fault env = None" "write_fault env = None"
    and chan: "\<forall>k. send_fault env k = None"
    and cu: "compile_unit env = Started (map Utf8 cs) StreamEnds (ExitStatus n)"
    and n: "n \<noteq> 0"
  shows "\<exists>cmd rcmd post.
    trace (snd (execute env code language w)) = trace w @
      [Mkdir (work_dir_of env),
       WriteText (work_dir_of env @ ''/'' @ ''main.'' @ file_ext cfg) code,
       Send (Status ''Starting execution...''),
       Send (Status ''Compiling...''),
       ContainerRun (run_args (cfg_image cfg) cmd (work_dir_of env))] @
      map (\<lambda>s. Send (Output s)) cs @
      [Send (Error (''Process exited with code '' @ str_int n)),
       Send (Status ''Running...''),
       ContainerRun (run_args (cfg_image cfg) rcmd (work_dir_of env))] @ post"
proof -
  let ?wd = "work_dir_of env" and ?fn = "''main.'' @ file_ext cfg"
  from formats(1) [OF cfg] obtain rcmd
    where r: "format_from (run_cmd cfg) None
            [(''filename'', ?fn),
             (''classname'', if language = ''java'' then ''main'' else ''None'')] = Inr rcmd"
    by blast
  from formats(2) [OF cfg cc] obtain cmd
    where c: "format_from t None [(''filename'', ?fn)] = Inr cmd"
    by blast
  let ?compile = "[Send (Status ''Compiling...''), ContainerRun (run_args (cfg_image cfg) cmd ?wd)] @
      map (\<lambda>s. Send (Output s)) cs @
      (if n = 0 then [] else [Send (Error (''Process exited with code '' @ str_int n))])"
  have comp: "yields (bind (format t [(''filename'', ?fn)]) (\<lambda>cmd.
       run_container env (compile_unit env) (cfg_image cfg) cmd ?wd ''Compiling...''))
       w' (Returns ()) ([] @ ?compile)" for w'
    unfolding cu by (rule yields_bind [OF yields_format [OF c] yields_run_container [OF chan]])
  have run: "begins (bind (run_container env (run_unit env) (cfg_image cfg) rcmd ?wd ''Running...'')
        (\<lambda>_. send_json env (Status ''Execution complete''))) w'
      [Send (Status ''Running...''), ContainerRun (run_args (cfg_image cfg) rcmd ?wd)]" for w'
    by (rule begins_bind_grows [OF begins_run_container [OF chan], where P = "\<lambda>a. True"]) auto
  have body: "begins (execute_body env cfg code language) w'
      ([WriteText (?wd @ ''/'' @ ?fn) code] @ [Send (Status ''Starting execution...'')] @
       ([] @ ?compile) @ [] @
       [Send (Status ''Running...''), ContainerRun (run_args (cfg_image cfg) rcmd ?wd)])" for w'
    unfolding execute_body_def Let_def cc option.case
    apply (rule begins_bind_ret)
     apply (rule yields_write_text [OF fs(3)])
    apply (rule begins_bind_ret)
     apply (rule yields_send_json)
     apply (simp add: chan)
    apply (rule begins_bind_ret)
     apply (rule comp)
    apply (rule begins_bind_ret)
     apply (rule yields_format [OF r])
    apply (rule run)
    done
  have "begins (execute env code language) w
      ([Mkdir ?wd] @ [WriteText (?wd @ ''/'' @ ?fn) code] @ [Send (Status ''Starting execution...'')] @
       ([] @ ?compile) @ [] @
       [Send (Status ''Running...''), ContainerRun (run_args (cfg_image cfg) rcmd ?wd)])"
    unfolding execute_Some [OF cfg]
    by (rule begins_bind_ret [OF yields_mkdir [OF fs(1,2)]],
        rule begins_try_finally [where P = "\<lambda>a. True"],
        rule begins_try_except [where P = "\<lambda>a. True"], rule body) auto
  with n show ?thesis
    by (auto simp: begins_def)
qed

theorem compile_failure_does_not_abort_witness:
  "\<exists>cmd rcmd post.
    trace (snd (execute broken_build ''int main() {'' ''cpp'' fresh)) = trace fresh @
      [Mkdir (work_dir_of broken_build),
       WriteText (work_dir_of broken_build @ ''/'' @ ''main.'' @ ''cpp'') ''int main() {'',
       Send (Status ''Starting execution...''),
       Send (Status ''Compiling...''),
       ContainerRun (run_args ''gcc:latest'' cmd (work_dir_of broken_build))] @
      map (\<lambda>s. Send (Output s)) [''main.cpp:1:12: error: expected } at end of input''] @
      [Send (Error (''Process exited with code '' @ str_int 1)),
       Send (Status ''Running...''),
       ContainerRun (run_args ''gcc:latest'' rcmd (work_dir_of broken_build))] @ post"
proof -
  let ?cfg = "\<lparr>cfg_image = ''gcc:latest'', file_ext = ''cpp'',
         compile_cmd = Some ''g++ -o program {filename} -std=c++17'',
         run_cmd = ''./program''\<rparr>"
  have 1: "LANGUAGE_CONFIGS ''cpp'' = Some ?cfg" by (simp add: LANGUAGE_CONFIGS_def)
  have 2: "compile_cmd ?cfg = Some ''g++ -o program {filename} -std=c++17''" by simp
  have 3: "work_dir_of broken_build \<notin> dirs fresh" by (simp add: fresh_def)
  have 4: "mkdir_fault broken_build = None" "write_fault broken_build = None"
    "\<forall>k. send_fault broken_build k = None"
    by (simp_all add: broken_build_def benign_def)
  have 5: "compile_unit broken_build =
      Started (map Utf8 [''main.cpp:1:12: error: expected } at end of input'']) StreamEnds (ExitStatus 1)"
    by (simp add: broken_build_def benign_def)
  have 6: "(1::int) \<noteq> 0" by simp
  from compile_failure_does_not_abort [OF 1 2 3 4 5 6, of "''int main() {''"]
  show ?thesis by simp
qed

section \<open>The exit status of the run phase\<close>

lemma bind_assoc: "bind (bind m f) g = bind m (\<lambda>x. bind (f x) g)"
  by (rule ext) (simp add: bind_def split: prod.splits outcome.splits)

lemma new_frames_append: "frames w' = frames w @ fs \<Longrightarrow> new_frames w w' = fs"
  by (simp add: new_frames_def)

lemma mkdir_frames: "frames (snd (mkdir env d w)) = frames w"
  by (simp add: mkdir_def log_def frames_def split: option.splits)

text \<open>
  What \<^verbatim>\<open>execute\<close> sends before the run phase: nothing of it is the status
  \<^verbatim>\<open>Running...\<close>.
\<close>

lemma before_run_grows:
  "grows (\<lambda>a. a \<noteq> Send (Status ''Running...''))
     (bind (write_text env p code) (\<lambda>_.
      bind (send_json env (Status ''Starting execution...'')) (\<lambda>_.
      case compile_cmd cfg of
        None \<Rightarrow> return ()
      | Some template \<Rightarrow>
          bind (format template kw) (\<lambda>cmd.
          run_container env (compile_unit env) img cmd wd ''Compiling...''))))"
  by (auto split: option.splits intro!: grows_run_container)

text \<open>
  The frames of \<^verbatim>\<open>execute\<close> on a channel that takes every frame, when the run unit
  prints its log and exits: either the run phase is never opened, or it is opened once
  and runs to the completion status.
\<close>

lemma execute_frames_cases:
  assumes chan: "\<forall>k. send_fault env k = None"
    and ru: "run_unit env = Started (map Utf8 ss) StreamEnds (ExitStatus n)"
  shows "\<exists>pre. Status ''Running...'' \<notin> set pre \<and>
    (new_frames w (snd (execute env code language w)) = pre \<or>
     new_frames w (snd (execute env code language w)) =
       pre @ Status ''Running...'' # map Output ss @
       (if n = 0 then [] else [Error (''Process exited with code '' @ str_int n)]) @
       [Status ''Execution complete''])"
proof (cases "LANGUAGE_CONFIGS language")
  case None
  with chan have "new_frames w (snd (execute env code language w)) =
      [Error (''Unsupported language: '' @ language)]"
    by (simp add: execute_def send_json_ok new_frames_def frames_def)
  then show ?thesis by simp
next
  case (Some cfg)
  let ?wd = "work_dir_of env" and ?fn = "''main.'' @ file_ext cfg"
  let ?T = "try_except (execute_body env cfg code language) (\<lambda>e. send_json env (Error (str e)))"
  let ?before = "bind (write_text env (?wd @ ''/'' @ ?fn) code) (\<lambda>_.
      bind (send_json env (Status ''Starting execution...'')) (\<lambda>_.
      case compile_cmd cfg of
        None \<Rightarrow> return ()
      | Some template \<Rightarrow>
          bind (format template [(''filename'', ?fn)]) (\<lambda>cmd.
          run_container env (compile_unit env) (cfg_image cfg) cmd ?wd ''Compiling...'')))"
  let ?run = "\<lambda>_ :: unit. bind (format (run_cmd cfg)
        [(''filename'', ?fn), (''classname'', if language = ''java'' then ''main'' else ''None'')])
      (\<lambda>cmd. bind (run_container env (run_unit env) (cfg_image cfg) cmd ?wd ''Running...'')
      (\<lambda>_. send_json env (Status ''Execution complete'')))"
  have body: "execute_body env cfg code language = bind ?before ?run"
    unfolding execute_body_def Let_def bind_assoc by (rule refl)
  from formats(1) [OF Some] obtain rcmd
    where r: "format_from (run_cmd cfg) None
            [(''filename'', ?fn),
             (''classname'', if language = ''java'' then ''main'' else ''None'')] = Inr rcmd"
    by blast
  obtain r0 w1 where mk: "mkdir env ?wd w = (r0, w1)" by (cases "mkdir env ?wd w")
  with mkdir_frames [of env ?wd w] have f1: "frames w1 = frames w" by simp
  show ?thesis
  proof (cases "r0 = Returns ()")
    case False
    with mk have "execute env code language w = (r0, w1)"
      by (cases r0) (simp_all add: execute_Some [OF Some] bind_def)
    with f1 have "new_frames w (snd (execute env code language w)) = []"
      by (simp add: new_frames_def)
    then show ?thesis by simp
  next
    case True
    with mk have ex: "frames (snd (execute env code language w)) = frames (snd (?T w1))"
      by (simp add: execute_Some [OF Some] bind_def frames_def try_finally_rmtree_frames)
    obtain r1 w3 where b: "?before w1 = (r1, w3)" by (cases "?before w1")
    from growsD [OF before_run_grows [where env = env and cfg = cfg and code = code
          and p = "?wd @ ''/'' @ ?fn" and kw = "[(''filename'', ?fn)]" and img = "cfg_image cfg"
          and wd = ?wd], where w = w1] b
    obtain ext where ext: "trace w3 = trace w1 @ ext"
      "list_all (\<lambda>a. a \<noteq> Send (Status ''Running...'')) ext"
      by auto
    from ext(2) have pre: "Status ''Running...'' \<notin> set (sent ext)"
      by (auto simp: sent_mem list_all_iff)
    from ext(1) f1 have f3: "frames w3 = frames w @ sent ext"
      by (simp add: frames_def)
    show ?thesis
    proof (cases r1)
      case (Returns u)
      with b chan ru r have "frames (snd (?T w1)) = frames w3 @
          Status ''Running...'' # map Output ss @
          (if n = 0 then [] else [Error (''Process exited with code '' @ str_int n)]) @
          [Status ''Execution complete'']"
        by (simp add: body try_except_def bind_def format_def run_container_ok send_json_ok
            frames_def sent_if split del: if_split cong: if_cong)
      with ex f3 have "new_frames w (snd (execute env code language w)) =
          sent ext @ Status ''Running...'' # map Output ss @
          (if n = 0 then [] else [Error (''Process exited with code '' @ str_int n)]) @
          [Status ''Execution complete'']"
        by (intro new_frames_append) simp
      with pre show ?thesis by blast
    next
      case (Raises e)
      with b chan have "frames (snd (?T w1)) = frames w3 @ [Error (str e)]"
        by (simp add: body try_except_def bind_def send_json_ok frames_def)
      with ex f3 have "new_frames w (snd (execute env code language w)) = sent ext @ [Error (str e)]"
        by (intro new_frames_append) simp
      moreover from pre have "Status ''Running...'' \<notin> set (sent ext @ [Error (str e)])"
        by simp
      ultimately show ?thesis by blast
    next
      case Hangs
      with b have "frames (snd (?T w1)) = frames w3"
        by (simp add: body try_except_def bind_def)
      with ex f3 have "new_frames w (snd (execute env code language w)) = sent ext"
        by (intro new_frames_append) simp
      with pre show ?thesis by blast
    qed
  qed
qed

text \<open>
  Claim C1, as stated, does not hold. It calls the completion status and the error frame
  of a nonzero exit status mutually exclusive; the session of a program that exits with
  status 1 sends both, the error frame first.
\<close>

theorem error_then_complete:
  "frames (snd (execute_code failing_run fresh)) =
     [Status ''Starting execution...'', Status ''Running...'', Output ''boom'',
      Error ''Process exited with code 1'', Status ''Execution complete'']"
  by code_simp

text \<open>
  Claim C1, amended. Take a call of \<^verbatim>\<open>execute\<close> on a channel that takes every frame,
  in which the status \<^verbatim>\<open>Running...\<close> is sent (the run phase is opened) and the run unit
  is created, yields a log of chunks that all decode, to the end of the log, and exits
  with status \<open>n\<close>. The frames that \<^verbatim>\<open>execute\<close> sends are then: frames among which
  there is no \<^verbatim>\<open>Running...\<close>; the status \<^verbatim>\<open>Running...\<close>; one output frame for each
  chunk of the log, in order; the error frame \<^verbatim>\<open>Process exited with code n\<close> if and only
  if \<open>n\<close> is not 0; and last the status \<^verbatim>\<open>Execution complete\<close>. So no output frame
  follows the error frame, a status of 0 gives no error frame in the run phase, and the
  completion status is sent in both cases.
\<close>

theorem run_exit_status_reported:
  assumes chan: "\<forall>k. send_fault env k = None"
    and ru: "run_unit env = Started (map Utf8 ss) StreamEnds (ExitStatus n)"
    and opened: "Status ''Running...'' \<in> set (new_frames w (snd (execute env code language w)))"
  shows "\<exists>pre. Status ''Running...'' \<notin> set pre \<and>
    new_frames w (snd (execute env code language w)) =
      pre @ Status ''Running...'' # map Output ss @
      (if n = 0 then [] else [Error (''Process exited with code '' @ str_int n)]) @
      [Status ''Execution complete'']"
proof -
  from execute_frames_cases [OF chan ru, of w code language] obtain pre
    where pre: "Status ''Running...'' \<notin> set pre"
      and c: "new_frames w (snd (execute env code language w)) = pre \<or>
        new_frames w (snd (execute env code language w)) =
          pre @ Status ''Running...'' # map Output ss @
          (if n = 0 then [] else [Error (''Process exited with code '' @ str_int n)]) @
          [Status ''Execution complete'']"
    by blast
  from c pre opened
  have "new_frames w (snd (execute env code language w)) =
      pre @ Status ''Running...'' # map Output ss @
      (if n = 0 then [] else [Error (''Process exited with code '' @ str_int n)]) @
      [Status ''Execution complete'']"
    by auto
  with pre show ?thesis by blast
qed

lemma failing_run_frames:
  "new_frames fresh (snd (execute failing_run ''raise SystemExit(1)'' ''python'' fresh)) =
     [Status ''Starting execution...'', Status ''Running...'', Output ''boom'',
      Error ''Process exited with code 1'', Status ''Execution complete'']"
  by code_simp

theorem run_exit_status_reported_witness:
  "\<exists>pre. Status ''Running...'' \<notin> set pre \<and>
    new_frames fresh (snd (execute failing_run ''raise SystemExit(1)'' ''python'' fresh)) =
      pre @ Status ''Running...'' # map Output [''boom''] @
      (if (1::int) = 0 then [] else [Error (''Process exited with code '' @ str_int 1)]) @
      [Status ''Execution complete'']"
proof -
  have 1: "\<forall>k. send_fault failing_run k = None"
    by (simp add: failing_run_def benign_def)
  have 2: "run_unit failing_run = Started (map Utf8 [''boom'']) StreamEnds (ExitStatus 1)"
    by (simp add: failing_run_def benign_def)
  have 3: "Status ''Running...'' \<in> set (new_frames fresh
      (snd (execute failing_run ''raise SystemExit(1)'' ''python'' fresh)))"
    by (simp add: failing_run_frames)
  from run_exit_status_reported [OF 1 2 3] show ?thesis .
qed

section \<open>The output of the program\<close>

lemma filter_outputs [simp]: "filter is_Output (map Output ss) = map Output ss"
  by (induction ss) simp_all

lemma filter_errors [simp]: "filter is_Error (map Output ss) = []"
  by (induction ss) simp_all

lemma data_outputs [simp]: "map (data \<circ> Output) ss = ss"
  by (induction ss) simp_all

text \<open>
  Claim C6, as stated, does not hold. The output frames of a session carry the log of
  the compile unit as well as the log of the run unit: for a program that prints nothing
  and exits with status 0, the output frames are not empty when the compiler warns.
\<close>

theorem compiler_output_is_sent:
  "concat (map data (filter is_Output (frames (snd (execute_code noisy_build fresh))))) =
     ''main.cpp:1:33: warning: integer overflow in expression'' \<and>
   run_unit noisy_build = Started [] StreamEnds (ExitStatus 0)"
  by code_simp

text \<open>
  Claim C6, amended. Take a call of \<^verbatim>\<open>execute\<close> for a language of the table, on a
  channel that takes every frame, whose workspace does not exist yet and can be made
  and written, whose compile unit (if the language has a compile command) is created,
  yields the chunks \<open>cs\<close>, which all decode, to the end of its log and exits with
  status 0, and whose run unit is created, yields the chunks \<open>ss\<close>, which all decode,
  to the end of its log and exits with status 0. The frames that \<^verbatim>\<open>execute\<close> sends
  are then the starting status, the compile status and one output frame for each chunk
  of \<open>cs\<close> (if the language has a compile command), the running status, one output
  frame for each chunk of \<open>ss\<close> in order, and the completion status. The output frames
  concatenated are \<open>cs\<close> followed by \<open>ss\<close>, and there is no error frame.
\<close>

theorem output_streamed_in_order:
  assumes cfg: "LANGUAGE_CONFIGS language = Some cfg"
    and fs: "work_dir_of env \<notin> dirs w" "mkdir_fault env = None" "write_fault env = None"
    and chan: "\<forall>k. send_fault env k = None"
    and cu: "compile_cmd cfg = None \<or>
             compile_unit env = Started (map Utf8 cs) StreamEnds (ExitStatus 0)"
    and ru: "run_unit env = Started (map Utf8 ss) StreamEnds (ExitStatus 0)"
  shows "new_frames w (snd (execute env code language w)) =
      Status ''Starting execution...'' #
      (case compile_cmd cfg of
         None \<Rightarrow> []
       | Some t \<Rightarrow> Status ''Compiling...'' # map Output cs) @
      Status ''Running...'' # map Output ss @ [Status ''Execution complete''] \<and>
    concat (map data (filter is_Output (new_frames w (snd (execute env code language w))))) =
      (case compile_cmd cfg of None \<Rightarrow> [] | Some t \<Rightarrow> concat cs) @ concat ss \<and>
    filter is_Error (new_frames w (snd (execute env code language w))) = []"
  using execute_terminating [OF cfg fs chan cu ru, of code]
  by (simp add: new_frames_def split: option.splits)

theorem output_streamed_in_order_witness:
  "new_frames fresh (snd (execute hello_build
      ''int main() { int x = 2147483647 + 1; __builtin_putchar(104); __builtin_putchar(10); __builtin_putchar(105); __builtin_putchar(10); return 0; }''
      ''cpp'' fresh)) =
     [Status ''Starting execution...'', Status ''Compiling...'',
      Output ''main.cpp:1:33: warning: integer overflow in expression'',
      Status ''Running...'', Output [CHR ''h'', CHR 0x0A], Output [CHR ''i'', CHR 0x0A],
      Status ''Execution complete''] \<and>
   concat (map data (filter is_Output (new_frames fresh (snd (execute hello_build
      ''int main() { int x = 2147483647 + 1; __builtin_putchar(104); __builtin_putchar(10); __builtin_putchar(105); __builtin_putchar(10); return 0; }''
      ''cpp'' fresh))))) =
     ''main.cpp:1:33: warning: integer overflow in expression'' @
     [CHR ''h'', CHR 0x0A, CHR ''i'', CHR 0x0A]"
proof -
  let ?cfg = "\<lparr>cfg_image = ''gcc:latest'', file_ext = ''cpp'',
         compile_cmd = Some ''g++ -o program {filename} -std=c++17'',
         run_cmd = ''./program''\<rparr>"
  have 1: "LANGUAGE_CONFIGS ''cpp'' = Some ?cfg" by (simp add: LANGUAGE_CONFIGS_def)
  have 2: "work_dir_of hello_build \<notin> dirs fresh" by (simp add: fresh_def)
  have 3: "mkdir_fault hello_build = None" "write_fault hello_build = None"
    "\<forall>k. send_fault hello_build k = None"
    by (simp_all add: hello_build_def benign_def)
  have 4: "compile_cmd ?cfg = None \<or> compile_unit hello_build =
      Started (map Utf8 [''main.cpp:1:33: warning: integer overflow in expression''])
        StreamEnds (ExitStatus 0)"
    by (simp add: hello_build_def benign_def)
  have 5: "run_unit hello_build =
      Started (map Utf8 [[CHR ''h'', CHR 0x0A], [CHR ''i'', CHR 0x0A]]) StreamEnds (ExitStatus 0)"
    by (simp add: hello_build_def benign_def)
  note t = output_streamed_in_order [OF 1 2 3 4 5]
  from t [THEN conjunct1] t [THEN conjunct2, THEN conjunct1] show ?thesis by simp
qed

section \<open>Faults of the infrastructure\<close>

text \<open>
  An \<^verbatim>\<open>APIError\<close> raised while the log of a unit is streamed, or while its exit status
  is awaited, is caught in \<^verbatim>\<open>_run_container\<close>, which returns after sending the error
  frame \<^verbatim>\<open>Docker error: \<close> followed by the text of the exception; that frame differs
  from the frame \<^verbatim>\<open>Process exited with code n\<close> of every exit status \<open>n\<close>.
\<close>

lemma docker_error_frame_distinct:
  assumes chan: "\<forall>k. send_fault env k = None"
    and api: "le = StreamRaises (APIError m) \<or> le = StreamEnds \<and> wr = WaitRaises (APIError m)"
  shows "fst (run_container env (Started (map Utf8 ss) le wr) img cmd wd msg w) = Returns () \<and>
    new_frames w (snd (run_container env (Started (map Utf8 ss) le wr) img cmd wd msg w)) =
      Status msg # map Output ss @ [Error (''Docker error: '' @ m)] \<and>
    Error (''Docker error: '' @ m) \<noteq> Error (''Process exited with code '' @ str_int n)"
  by (simp add: run_container_docker_error [OF chan api] new_frames_def frames_def)


section \<open>When a session does not return\<close>

lemma halts_unlessI: "(\<And>w. fst (m w) = Hangs \<Longrightarrow> C) \<Longrightarrow> halts_unless C m"
  unfolding halts_unless_def by blast

lemma halts_unlessD: "halts_unless C m \<Longrightarrow> fst (m w) = Hangs \<Longrightarrow> C"
  unfolding halts_unless_def by blast

lemma halts_return [intro!]: "halts_unless C (return x)"
  by (rule halts_unlessI) (simp add: return_def)

lemma halts_raise [intro!]: "halts_unless C (raise e)"
  by (rule halts_unlessI) (simp add: raise_def)

lemma halts_bind [intro!]:
  assumes "halts_unless C m" and "\<And>x. halts_unless C (k x)"
  shows "halts_unless C (bind m k)"
proof (rule halts_unlessI)
  fix w
  assume h: "fst (bind m k w) = Hangs"
  obtain r w1 where m: "m w = (r, w1)" by (cases "m w")
  show C
  proof (cases r)
    case (Returns x)
    with h m have "fst (k x w1) = Hangs" by (simp add: bind_def)
    then show C by (rule halts_unlessD [OF assms(2)])
  next
    case (Raises e)
    with h m show C by (simp add: bind_def)
  next
    case Hangs
    with m have "fst (m w) = Hangs" by simp
    then show C by (rule halts_unlessD [OF assms(1)])
  qed
qed

lemma halts_try_except [intro!]:
  assumes "halts_unless C m" and "\<And>e. halts_unless C (h e)"
  shows "halts_unless C (try_except m h)"
proof (rule halts_unlessI)
  fix w
  assume h: "fst (try_except m h w) = Hangs"
  obtain r w1 where m: "m w = (r, w1)" by (cases "m w")
  show C
  proof (cases r)
    case (Returns x)
    with h m show C by (simp add: try_except_def)
  next
    case (Raises e)
    with h m have "fst (h e w1) = Hangs" by (simp add: try_except_def)
    then show C by (rule halts_unlessD [OF assms(2)])
  next
    case Hangs
    with m have "fst (m w) = Hangs" by simp
    then show C by (rule halts_unlessD [OF assms(1)])
  qed
qed

lemma halts_try_except_APIError [intro!]:
  assumes "halts_unless C m" and "\<And>e. halts_unless C (h e)"
  shows "halts_unless C (try_except_APIError m h)"
proof (rule halts_unlessI)
  fix w
  assume h: "fst (try_except_APIError m h w) = Hangs"
  obtain r w1 where m: "m w = (r, w1)" by (cases "m w")
  show C
  proof (cases r)
    case (Returns x)
    with h m show C by (simp add: try_except_APIError_def)
  next
    case (Raises e)
    show C
    proof (cases e)
      case (APIError s)
      with h m Raises have "fst (h e w1) = Hangs" by (simp add: try_except_APIError_def)
      then show C by (rule halts_unlessD [OF assms(2)])
    next
      case (OtherError s)
      with h m Raises show C by (simp add: try_except_APIError_def)
    qed
  next
    case Hangs
    with m have "fst (m w) = Hangs" by simp
    then show C by (rule halts_unlessD [OF assms(1)])
  qed
qed

lemma halts_try_finally [intro!]:
  assumes "halts_unless C m" and "halts_unless C fin"
  shows "halts_unless C (try_finally m fin)"
proof (rule halts_unlessI)
  fix w
  assume h: "fst (try_finally m fin w) = Hangs"
  obtain r w1 where m: "m w = (r, w1)" by (cases "m w")
  obtain r2 w2 where f: "fin w1 = (r2, w2)" by (cases "fin w1")
  show C
  proof (cases "r = Hangs")
    case True
    with m have "fst (m w) = Hangs" by simp
    then show C by (rule halts_unlessD [OF assms(1)])
  next
    case False
    with h m f have "r2 = Hangs"
      by (cases r; cases r2) (simp_all add: try_finally_def)
    with f have "fst (fin w1) = Hangs" by simp
    then show C by (rule halts_unlessD [OF assms(2)])
  qed
qed

lemma halts_send_json [intro!]: "halts_unless C (send_json env f)"
  by (rule halts_unlessI) (simp add: send_json_def split: option.splits)

lemma halts_mkdir [intro!]: "halts_unless C (mkdir env d)"
  by (rule halts_unlessI) (simp add: mkdir_def split: option.splits if_splits)

lemma halts_write_text [intro!]: "halts_unless C (write_text env p s)"
  by (rule halts_unlessI) (simp add: write_text_def split: option.splits)

lemma halts_rmtree [intro!]: "halts_unless C (rmtree env d b)"
  by (rule halts_unlessI) (simp add: rmtree_halts)

lemma halts_format [intro!]: "halts_unless C (format t kw)"
  by (rule halts_unlessI) (simp add: format_def split: sum.splits)

lemma halts_decode [intro!]: "halts_unless C (decode c)"
  by (rule halts_unlessI) (simp add: decode_def split: chunk.splits)

lemma halts_container_wait [intro!]: "halts_unless C (container_wait wr)"
  by (rule halts_unlessI) (simp add: container_wait_def split: wait_result.splits)

lemma halts_containers_run [intro!]: "halts_unless C (containers_run b a)"
  by (rule halts_unlessI) (simp add: containers_run_def split: unit_behaviour.splits)

lemma halts_accept [intro!]: "halts_unless C accept"
  by (rule halts_unlessI) (simp add: accept_def)

lemma halts_close [intro!]: "halts_unless C close"
  by (rule halts_unlessI) (simp add: close_def)

lemma halts_receive_json [intro!]: "halts_unless C (receive_json env)"
  by (rule halts_unlessI) (simp add: receive_json_def split: sum.splits)

lemma halts_stream_logs:
  "(le = StreamBlocks \<Longrightarrow> C) \<Longrightarrow> halts_unless C (stream_logs env cs le)"
proof (induction cs)
  case Nil
  then show ?case
    by (cases le) (auto intro!: halts_unlessI simp: return_def raise_def)
next
  case (Cons c cs)
  then show ?case by auto
qed

lemma containers_run_handle:
  "containers_run b a w = (Returns (cs, le, wr), w') \<Longrightarrow> b = Started cs le wr"
  by (cases b) (simp_all add: containers_run_def)

lemma halts_run_container:
  assumes "blocks b \<Longrightarrow> C"
  shows "halts_unless C (run_container env b img cmd wd msg)"
proof (rule halts_unlessI)
  fix w
  assume h: "fst (run_container env b img cmd wd msg w) = Hangs"
  show C
  proof (cases b)
    case (CreateRaises e)
    with h show C
      by (simp add: run_container_def bind_def containers_run_def send_json_def
          split: option.splits)
  next
    case (Started cs le wr)
    let ?rest = "try_except_APIError
       (bind (stream_logs env cs le) (\<lambda>_.
        bind (container_wait wr) (\<lambda>exit_code.
        if exit_code \<noteq> 0
        then send_json env (Error (''Process exited with code '' @ str_int exit_code))
        else return ())))
       (\<lambda>e. send_json env (Error (''Docker error: '' @ str e)))"
    have "halts_unless (le = StreamBlocks) ?rest"
      by (intro halts_try_except_APIError halts_bind halts_stream_logs halts_container_wait
          halts_send_json) auto
    moreover from h Started have "\<exists>w2. fst (?rest w2) = Hangs"
      by (auto simp: run_container_def bind_def send_json_def containers_run_def
          split: option.splits)
    ultimately have "le = StreamBlocks" by (auto dest: halts_unlessD)
    with Started assms show C by simp
  qed
qed

lemma halts_execute_body:
  "halts_unless (blocks (compile_unit env) \<or> blocks (run_unit env))
     (execute_body env cfg code language)"
  unfolding execute_body_def Let_def
  by (intro halts_bind halts_write_text halts_send_json halts_format halts_run_container)
    (auto split: option.splits intro!: halts_run_container)

lemma halts_execute:
  "halts_unless (blocks (compile_unit env) \<or> blocks (run_unit env)) (execute env code language)"
  unfolding execute_def
  by (auto split: option.splits intro!: halts_execute_body)

lemma halts_execute_code:
  "halts_unless (blocks (compile_unit env) \<or> blocks (run_unit env)) (execute_code env)"
  unfolding execute_code_def
  by (auto intro!: halts_execute)

section \<open>Cleanup and the handler of \<^verbatim>\<open>execute\<close>\<close>

lemma try_handler_grows:
  "grows (\<lambda>a. a \<noteq> Rmtree d)
     (try_except (execute_body env cfg code language) (\<lambda>e. send_json env (Error (str e))))"
  by (intro grows_try_except grows_execute_body grows_send_json) simp_all

lemma try_finally_rmtree_trace:
  assumes "fst (m w) \<noteq> Hangs"
  shows "fst (try_finally m (rmtree env d b) w) \<noteq> Hangs \<and>
    trace (snd (try_finally m (rmtree env d b) w)) = trace (snd (m w)) @ [Rmtree d]"
proof (cases "m w")
  case (Pair r w1)
  obtain r2 w2 where f: "rmtree env d b w1 = (r2, w2)" by (cases "rmtree env d b w1")
  then have "trace w2 = trace w1 @ [Rmtree d]" "r2 \<noteq> Hangs"
    by (auto simp: rmtree_def log_def split: option.splits rm_fault.splits if_splits)
  with Pair f assms show ?thesis
    by (cases r; cases r2) (simp_all add: try_finally_def)
qed

lemma try_finally_rmtree_outcome:
  assumes "\<forall>m. rmtree_fault env \<noteq> Some (NotOSError m)"
  shows "fst (try_finally m (rmtree env d True) w) = fst (m w)"
proof (cases "m w")
  case (Pair r w1)
  with rmtree_ignore [OF assms, where d = d and w = w1] show ?thesis
    by (cases r) (simp_all add: try_finally_def)
qed

text \<open>
  Claim C4, as stated, does not hold. The handler of \<^verbatim>\<open>execute\<close> reports an exception
  by sending a frame, and a client that has gone makes that \<^verbatim>\<open>send_json\<close> raise in
  its turn: the new exception leaves \<^verbatim>\<open>execute\<close>, the handler of \<^verbatim>\<open>execute_code\<close>
  fails in the same way, and the exception leaves the endpoint with no error frame sent.
\<close>

theorem client_gone_uncaught:
  "fst (execute client_gone ''print(1)'' ''python'' fresh) = Raises (OtherError []) \<and>
   fst (execute_code client_gone fresh) = Raises (OtherError []) \<and>
   frames (snd (execute_code client_gone fresh)) = [Status ''Starting execution...'']"
  by code_simp

text \<open>
  Claim C4, amended. Take a call of \<^verbatim>\<open>execute\<close> for a language of the table whose
  workspace does not exist yet and can be made. The call fails to return only if the
  log of one of its units blocks for ever. Whenever it returns or raises, whatever went
  wrong on the way (the file, the channel, either unit, the removal itself), the last
  action of \<^verbatim>\<open>execute\<close> is the call that removes the workspace, and there is no other
  such call. Whatever exception the \<^verbatim>\<open>try\<close> suite raises, if the channel takes the
  frame of the handler, then the last frame of \<^verbatim>\<open>execute\<close> is the one error frame
  with the text of that exception, and \<^verbatim>\<open>execute\<close> returns normally unless the
  removal raises an exception that is no \<^verbatim>\<open>OSError\<close>. On a channel that takes every
  frame, and with a removal that raises nothing but \<^verbatim>\<open>OSError\<close>, no exception leaves
  \<^verbatim>\<open>execute\<close>.
\<close>

theorem workspace_always_removed:
  assumes cfg: "LANGUAGE_CONFIGS language = Some cfg"
    and fs: "work_dir_of env \<notin> dirs w" "mkdir_fault env = None"
  shows "(fst (execute env code language w) = Hangs \<longrightarrow>
            blocks (compile_unit env) \<or> blocks (run_unit env)) \<and>
         (fst (execute env code language w) \<noteq> Hangs \<longrightarrow>
            (\<exists>mid. trace (snd (execute env code language w)) =
                trace w @ Mkdir (work_dir_of env) # mid @ [Rmtree (work_dir_of env)] \<and>
              Rmtree (work_dir_of env) \<notin> set mid)) \<and>
         (\<forall>e w'. execute_body env cfg code language (snd (mkdir env (work_dir_of env) w)) =
              (Raises e, w') \<and> send_fault env (sends w') = None \<longrightarrow>
            frames (snd (execute env code language w)) = frames w' @ [Error (str e)] \<and>
            ((\<forall>m. rmtree_fault env \<noteq> Some (NotOSError m)) \<longrightarrow>
               fst (execute env code language w) = Returns ())) \<and>
         ((\<forall>k. send_fault env k = None) \<and> (\<forall>m. rmtree_fault env \<noteq> Some (NotOSError m)) \<longrightarrow>
            (\<forall>e. fst (execute env code language w) \<noteq> Raises e))"
proof -
  let ?d = "work_dir_of env"
  let ?w1 = "w\<lparr>trace := trace w @ [Mkdir ?d], dirs := insert ?d (dirs w)\<rparr>"
  let ?T = "try_except (execute_body env cfg code language) (\<lambda>e. send_json env (Error (str e)))"
  have mk: "mkdir env ?d w = (Returns (), ?w1)" using fs by (rule mkdir_ok)
  have ex: "execute env code language w = try_finally ?T (rmtree env ?d True) ?w1"
    by (simp add: execute_Some [OF cfg] bind_def mk)
  obtain r w2 where T: "?T ?w1 = (r, w2)" by (cases "?T ?w1")
  from growsD [OF try_handler_grows [where d = ?d and env = env and cfg = cfg and code = code
        and language = language], where w = ?w1] T
  obtain mid where mid: "trace w2 = trace ?w1 @ mid" "list_all (\<lambda>a. a \<noteq> Rmtree ?d) mid"
    by auto
  have a: "fst (execute env code language w) = Hangs \<longrightarrow>
      blocks (compile_unit env) \<or> blocks (run_unit env)"
    using halts_unlessD [OF halts_execute] by blast
  have b: "fst (execute env code language w) \<noteq> Hangs \<longrightarrow>
      (\<exists>mid. trace (snd (execute env code language w)) =
          trace w @ Mkdir ?d # mid @ [Rmtree ?d] \<and> Rmtree ?d \<notin> set mid)"
  proof
    assume "fst (execute env code language w) \<noteq> Hangs"
    with ex T have "r \<noteq> Hangs" by (auto simp: try_finally_def)
    with T have "fst (?T ?w1) \<noteq> Hangs" by simp
    from try_finally_rmtree_trace [where m = ?T and w = ?w1 and env = env and d = ?d
        and b = True, OF this] ex T
    have "trace (snd (execute env code language w)) = trace w2 @ [Rmtree ?d]"
      by simp
    with mid show "\<exists>mid. trace (snd (execute env code language w)) =
          trace w @ Mkdir ?d # mid @ [Rmtree ?d] \<and> Rmtree ?d \<notin> set mid"
      by (auto simp: list_all_iff)
  qed
  have c: "frames (snd (execute env code language w)) = frames w' @ [Error (str e)] \<and>
      ((\<forall>m. rmtree_fault env \<noteq> Some (NotOSError m)) \<longrightarrow>
         fst (execute env code language w) = Returns ())"
    if "execute_body env cfg code language (snd (mkdir env ?d w)) = (Raises e, w')"
      and "send_fault env (sends w') = None" for e w'
  proof -
    from that have t: "?T ?w1 = (Returns (), w'\<lparr>trace := trace w' @ [Send (Error (str e))],
        sends := Suc (sends w')\<rparr>)"
      by (simp add: mk try_except_def send_json_ok)
    then have "frames (snd (execute env code language w)) = frames w' @ [Error (str e)]"
      by (simp add: ex frames_def try_finally_rmtree_frames)
    moreover have "fst (execute env code language w) = Returns ()"
      if "\<forall>m. rmtree_fault env \<noteq> Some (NotOSError m)"
      using try_finally_rmtree_outcome [where m = ?T and d = ?d and w = ?w1, OF that] t
      by (simp add: ex)
    ultimately show ?thesis by blast
  qed
  have d: "fst (execute env code language w) \<noteq> Raises e"
    if chan: "\<forall>k. send_fault env k = None" and rm: "\<forall>m. rmtree_fault env \<noteq> Some (NotOSError m)"
    for e
  proof -
    obtain rb wb where body: "execute_body env cfg code language ?w1 = (rb, wb)"
      by (cases "execute_body env cfg code language ?w1")
    with chan have "fst (?T ?w1) \<noteq> Raises e"
      by (cases rb) (simp_all add: try_except_def send_json_ok)
    with try_finally_rmtree_outcome [where m = ?T and d = ?d and w = ?w1, OF rm]
    show ?thesis by (simp add: ex)
  qed
  from a b c d show ?thesis by blast
qed

lemma disk_full_body:
  "execute_body disk_full
     \<lparr>cfg_image = ''python:3.11-slim'', file_ext = ''py'', compile_cmd = None,
      run_cmd = ''python {filename}''\<rparr> ''print(1)'' ''python''
     (snd (mkdir disk_full (work_dir_of disk_full) fresh)) =
   (Raises (OtherError ''[Errno 28] No space left on device''),
    \<lparr>trace = [Mkdir ''/tmp/code_execution/u''], sends = 0, dirs = {''/tmp/code_execution/u''}\<rparr>)"
  by code_simp

theorem workspace_always_removed_witness:
  "fst (execute disk_full ''print(1)'' ''python'' fresh) = Returns () \<and>
   frames (snd (execute disk_full ''print(1)'' ''python'' fresh)) =
     [Error ''[Errno 28] No space left on device''] \<and>
   (\<exists>mid. trace (snd (execute disk_full ''print(1)'' ''python'' fresh)) =
      trace fresh @ Mkdir (work_dir_of disk_full) # mid @ [Rmtree (work_dir_of disk_full)] \<and>
      Rmtree (work_dir_of disk_full) \<notin> set mid)"
proof -
  let ?cfg = "\<lparr>cfg_image = ''python:3.11-slim'', file_ext = ''py'',
         compile_cmd = None, run_cmd = ''python {filename}''\<rparr>"
  have 1: "LANGUAGE_CONFIGS ''python'' = Some ?cfg" by (simp add: LANGUAGE_CONFIGS_def)
  have 2: "work_dir_of disk_full \<notin> dirs fresh" by (simp add: fresh_def)
  have 3: "mkdir_fault disk_full = None" by (simp add: disk_full_def benign_def)
  have 4: "\<not> (blocks (compile_unit disk_full) \<or> blocks (run_unit disk_full))"
    by (simp add: disk_full_def benign_def quiet_def)
  have 5: "send_fault disk_full k = None" for k by (simp add: disk_full_def benign_def)
  have 6: "\<forall>m. rmtree_fault disk_full \<noteq> Some (NotOSError m)"
    by (simp add: disk_full_def benign_def)
  note t = workspace_always_removed [OF 1 2 3, of "''print(1)''"]
  from t 4 have "fst (execute disk_full ''print(1)'' ''python'' fresh) \<noteq> Hangs" by blast
  with t have "\<exists>mid. trace (snd (execute disk_full ''print(1)'' ''python'' fresh)) =
      trace fresh @ Mkdir (work_dir_of disk_full) # mid @ [Rmtree (work_dir_of disk_full)] \<and>
      Rmtree (work_dir_of disk_full) \<notin> set mid" by blast
  moreover from t disk_full_body 5 6
  have "fst (execute disk_full ''print(1)'' ''python'' fresh) = Returns () \<and>
    frames (snd (execute disk_full ''print(1)'' ''python'' fresh)) =
      frames \<lparr>trace = [Mkdir ''/tmp/code_execution/u''], sends = 0,
        dirs = {''/tmp/code_execution/u''}\<rparr> @
      [Error (str (OtherError ''[Errno 28] No space left on device''))]"
    by blast
  ultimately show ?thesis by (simp add: frames_def)
qed

section \<open>Sessions follow the lifecycle\<close>

lemma code_run_append:
  "code_run q (xs @ ys) = (case code_run q xs of None \<Rightarrow> None | Some q' \<Rightarrow> code_run q' ys)"
  by (induction xs arbitrary: q) (simp_all split: option.splits)

lemma leadsI:
  assumes "\<And>w q. code_run Created (frames w) = Some q \<Longrightarrow> q \<in> Q \<Longrightarrow>
     \<exists>q'. code_run Created (frames (snd (m w))) = Some q' \<and>
       (case fst (m w) of Returns x \<Rightarrow> q' \<in> N | Raises e \<Rightarrow> q' \<in> X | Hangs \<Rightarrow> q' \<in> H)"
  shows "leads Q m N X H"
  using assms unfolding leads_def by blast

lemma leadsD:
  assumes "leads Q m N X H" and "code_run Created (frames w) = Some q" and "q \<in> Q"
    and "m w = (r, w')"
  obtains q' where "code_run Created (frames w') = Some q'"
    and "case r of Returns x \<Rightarrow> q' \<in> N | Raises e \<Rightarrow> q' \<in> X | Hangs \<Rightarrow> q' \<in> H"
  using assms unfolding leads_def by fastforce

lemma leads_weaken:
  assumes "leads Q m N X H" and "Q' \<subseteq> Q" and "N \<subseteq> N'" and "X \<subseteq> X'" and "H \<subseteq> H'"
  shows "leads Q' m N' X' H'"
proof (rule leadsI)
  fix w q
  assume q: "code_run Created (frames w) = Some q" "q \<in> Q'"
  obtain r w' where m: "m w = (r, w')" by (cases "m w")
  from q assms(2) have "q \<in> Q" by blast
  from leadsD [OF assms(1) q(1) this m] obtain q'
    where "code_run Created (frames w') = Some q'"
      and "case r of Returns x \<Rightarrow> q' \<in> N | Raises e \<Rightarrow> q' \<in> X | Hangs \<Rightarrow> q' \<in> H"
    by blast
  with assms(3-5) m
  show "\<exists>q'. code_run Created (frames (snd (m w))) = Some q' \<and>
       (case fst (m w) of Returns x \<Rightarrow> q' \<in> N' | Raises e \<Rightarrow> q' \<in> X' | Hangs \<Rightarrow> q' \<in> H')"
    by (cases r) auto
qed

lemma leads_silent:
  assumes "\<And>w. frames (snd (m w)) = frames w"
  shows "leads Q m Q Q Q"
  by (rule leadsI) (auto simp: assms split: outcome.splits)

lemma leads_send_json:
  assumes "\<And>q. q \<in> Q \<Longrightarrow> \<exists>q'. code_step q f = Some q' \<and> q' \<in> N"
  shows "leads Q (send_json env f) N Q H"
proof (rule leadsI)
  fix w q
  assume q: "code_run Created (frames w) = Some q" "q \<in> Q"
  from assms [OF q(2)] obtain q' where "code_step q f = Some q'" "q' \<in> N" by blast
  with q show "\<exists>q'. code_run Created (frames (snd (send_json env f w))) = Some q' \<and>
       (case fst (send_json env f w) of Returns x \<Rightarrow> q' \<in> N | Raises e \<Rightarrow> q' \<in> Q
        | Hangs \<Rightarrow> q' \<in> H)"
    by (cases "send_fault env (sends w)")
      (simp_all add: send_json_def log_def frames_def code_run_append)
qed

lemma leads_bind:
  assumes "leads Q m N1 X H" and "\<And>x. leads N1 (k x) N X H"
  shows "leads Q (bind m k) N X H"
proof (rule leadsI)
  fix w q
  assume q: "code_run Created (frames w) = Some q" "q \<in> Q"
  obtain r w1 where m: "m w = (r, w1)" by (cases "m w")
  from leadsD [OF assms(1) q m] obtain q1
    where q1: "code_run Created (frames w1) = Some q1"
      "case r of Returns x \<Rightarrow> q1 \<in> N1 | Raises e \<Rightarrow> q1 \<in> X | Hangs \<Rightarrow> q1 \<in> H"
    by blast
  show "\<exists>q'. code_run Created (frames (snd (bind m k w))) = Some q' \<and>
       (case fst (bind m k w) of Returns x \<Rightarrow> q' \<in> N | Raises e \<Rightarrow> q' \<in> X | Hangs \<Rightarrow> q' \<in> H)"
  proof (cases r)
    case (Returns x)
    obtain r2 w2 where k: "k x w1 = (r2, w2)" by (cases "k x w1")
    from q1 Returns have "q1 \<in> N1" by simp
    from leadsD [OF assms(2) q1(1) this k] obtain q2
      where "code_run Created (frames w2) = Some q2"
        "case r2 of Returns x \<Rightarrow> q2 \<in> N | Raises e \<Rightarrow> q2 \<in> X | Hangs \<Rightarrow> q2 \<in> H"
      by blast
    with m Returns k show ?thesis by (simp add: bind_def)
  qed (use q1 m in \<open>simp_all add: bind_def\<close>)
qed

lemma leads_try_except:
  assumes "leads Q m N X1 H" and "\<And>e. leads X1 (h e) N X H"
  shows "leads Q (try_except m h) N X H"
proof (rule leadsI)
  fix w q
  assume q: "code_run Created (frames w) = Some q" "q \<in> Q"
  obtain r w1 where m: "m w = (r, w1)" by (cases "m w")
  from leadsD [OF assms(1) q m] obtain q1
    where q1: "code_run Created (frames w1) = Some q1"
      "case r of Returns x \<Rightarrow> q1 \<in> N | Raises e \<Rightarrow> q1 \<in> X1 | Hangs \<Rightarrow> q1 \<in> H"
    by blast
  show "\<exists>q'. code_run Created (frames (snd (try_except m h w))) = Some q' \<and>
       (case fst (try_except m h w) of Returns x \<Rightarrow> q' \<in> N | Raises e \<Rightarrow> q' \<in> X
        | Hangs \<Rightarrow> q' \<in> H)"
  proof (cases r)
    case (Raises e)
    obtain r2 w2 where k: "h e w1 = (r2, w2)" by (cases "h e w1")
    from q1 Raises have "q1 \<in> X1" by simp
    from leadsD [OF assms(2) q1(1) this k] obtain q2
      where "code_run Created (frames w2) = Some q2"
        "case r2 of Returns x \<Rightarrow> q2 \<in> N | Raises e \<Rightarrow> q2 \<in> X | Hangs \<Rightarrow> q2 \<in> H"
      by blast
    with m Raises k show ?thesis by (simp add: try_except_def)
  qed (use q1 m in \<open>simp_all add: try_except_def\<close>)
qed

lemma leads_try_except_APIError:
  assumes "leads Q m N X1 H" and "\<And>e. leads X1 (h e) N X H" and "X1 \<subseteq> X"
  shows "leads Q (try_except_APIError m h) N X H"
proof (rule leadsI)
  fix w q
  assume q: "code_run Created (frames w) = Some q" "q \<in> Q"
  obtain r w1 where m: "m w = (r, w1)" by (cases "m w")
  from leadsD [OF assms(1) q m] obtain q1
    where q1: "code_run Created (frames w1) = Some q1"
      "case r of Returns x \<Rightarrow> q1 \<in> N | Raises e \<Rightarrow> q1 \<in> X1 | Hangs \<Rightarrow> q1 \<in> H"
    by blast
  show "\<exists>q'. code_run Created (frames (snd (try_except_APIError m h w))) = Some q' \<and>
       (case fst (try_except_APIError m h w) of Returns x \<Rightarrow> q' \<in> N | Raises e \<Rightarrow> q' \<in> X
        | Hangs \<Rightarrow> q' \<in> H)"
  proof (cases r)
    case (Raises e)
    from q1 Raises have x1: "q1 \<in> X1" by simp
    show ?thesis
    proof (cases e)
      case (APIError s)
      obtain r2 w2 where k: "h e w1 = (r2, w2)" by (cases "h e w1")
      from leadsD [OF assms(2) q1(1) x1 k] obtain q2
        where "code_run Created (frames w2) = Some q2"
          "case r2 of Returns x \<Rightarrow> q2 \<in> N | Raises e \<Rightarrow> q2 \<in> X | Hangs \<Rightarrow> q2 \<in> H"
        by blast
      with m Raises APIError k show ?thesis by (simp add: try_except_APIError_def)
    next
      case (OtherError s)
      with q1 x1 assms(3) m Raises show ?thesis
        by (auto simp: try_except_APIError_def)
    qed
  qed (use q1 m in \<open>simp_all add: try_except_APIError_def\<close>)
qed

lemma leads_try_finally:
  assumes "leads Q m N X H"
    and "\<And>w. fst (fin w) \<noteq> Hangs \<and> frames (snd (fin w)) = frames w"
  shows "leads Q (try_finally m fin) N (N \<union> X) H"
proof (rule leadsI)
  fix w q
  assume q: "code_run Created (frames w) = Some q" "q \<in> Q"
  obtain r w1 where m: "m w = (r, w1)" by (cases "m w")
  from leadsD [OF assms(1) q m] obtain q1
    where q1: "code_run Created (frames w1) = Some q1"
      "case r of Returns x \<Rightarrow> q1 \<in> N | Raises e \<Rightarrow> q1 \<in> X | Hangs \<Rightarrow> q1 \<in> H"
    by blast
  obtain r2 w2 where f: "fin w1 = (r2, w2)" by (cases "fin w1")
  with assms(2) [of w1] have "r2 \<noteq> Hangs" "frames w2 = frames w1" by simp_all
  with q1 m f
  show "\<exists>q'. code_run Created (frames (snd (try_finally m fin w))) = Some q' \<and>
       (case fst (try_finally m fin w) of Returns x \<Rightarrow> q' \<in> N | Raises e \<Rightarrow> q' \<in> N \<union> X
        | Hangs \<Rightarrow> q' \<in> H)"
    by (cases r; cases r2) (simp_all add: try_finally_def)
qed

lemma leads_return: "leads Q (return x) Q X H"
  by (rule leadsI) (simp add: return_def)

lemma leads_raise: "leads Q (raise e) N Q H"
  by (rule leadsI) (simp add: raise_def)

lemma leads_hang: "leads Q (\<lambda>w. (Hangs, w)) N X Q"
  by (rule leadsI) simp

lemma leads_decode: "leads Q (decode c) Q Q H"
  by (rule leadsI) (simp add: decode_def split: chunk.splits)

lemma leads_format: "leads Q (format t kw) Q Q H"
  by (rule leadsI) (simp add: format_def split: sum.splits)

lemma leads_container_wait: "leads Q (container_wait wr) Q Q H"
  by (rule leadsI) (simp add: container_wait_def split: wait_result.splits)

lemma leads_containers_run: "leads Q (containers_run b a) Q Q H"
  by (rule leadsI)
    (simp add: containers_run_def log_def frames_def split: unit_behaviour.splits)

lemma leads_write_text: "leads Q (write_text env p s) Q Q H"
  by (rule leadsI) (simp add: write_text_def log_def frames_def split: option.splits)

lemma leads_mkdir: "leads Q (mkdir env d) Q Q H"
  by (rule leadsI) (simp add: mkdir_def log_def frames_def split: option.splits)

lemma leads_accept: "leads Q accept Q X H"
  by (rule leadsI) (simp add: accept_def log_def frames_def)

lemma leads_receive_json: "leads Q (receive_json env) Q Q H"
  by (rule leadsI) (simp add: receive_json_def split: sum.splits)

lemma rmtree_silent:
  "fst (rmtree env d b w) \<noteq> Hangs \<and> frames (snd (rmtree env d b w)) = frames w"
  by (simp add: rmtree_halts rmtree_frames)

lemma close_silent: "fst (close w) \<noteq> Hangs \<and> frames (snd (close w)) = frames w"
  by (simp add: close_def log_def frames_def)

lemma leads_stream_logs:
  assumes "\<And>d. code_step p (Output d) = Some p"
  shows "leads {p} (stream_logs env cs le) {p} {p} {p}"
proof (induction cs)
  case Nil
  show ?case by (cases le) (simp_all add: leads_return leads_raise leads_hang)
next
  case (Cons c cs)
  show ?case
    unfolding stream_logs.simps
    by (intro leads_bind [where ?N1.0 = "{p}"] leads_decode leads_send_json Cons)
      (simp add: assms)
qed

lemma leads_if:
  "leads Q a N X H \<Longrightarrow> leads Q b N X H \<Longrightarrow> leads Q (if c then a else b) N X H"
  by simp

lemma leads_run_container:
  assumes out: "\<And>d. code_step p (Output d) = Some p"
    and err: "\<And>d. code_step p (Error d) = Some e"
    and start: "\<And>q. q \<in> Q \<Longrightarrow> code_step q (Status msg) = Some p"
  shows "leads Q (run_container env b img cmd wd msg) {p, e} (insert p Q) {p}"
proof -
  have report: "leads {p} (send_json env (Error d)) {p, e} {p} {p}" for d
    by (rule leads_send_json) (simp add: err)
  have stream: "leads {p} (stream_logs env cs le) {p} {p} {p}" for cs le
    by (rule leads_stream_logs [OF out])
  have rest: "leads {p} (return ()) {p, e} {p} {p}"
    by (rule leads_weaken [OF leads_return [where Q = "{p}" and X = "{p}" and H = "{p}"]]) simp_all
  have inner: "leads {p}
      (bind (stream_logs env cs le) (\<lambda>_.
        bind (container_wait wr) (\<lambda>exit_code.
        if exit_code \<noteq> 0
        then send_json env (Error (''Process exited with code '' @ str_int exit_code))
        else return ())))
      {p, e} {p} {p}" for cs le wr
    by (intro leads_bind [where ?N1.0 = "{p}"] stream leads_container_wait leads_if report rest)
  have guarded: "leads {p}
      (try_except_APIError
        (bind (stream_logs env cs le) (\<lambda>_.
          bind (container_wait wr) (\<lambda>exit_code.
          if exit_code \<noteq> 0
          then send_json env (Error (''Process exited with code '' @ str_int exit_code))
          else return ())))
        (\<lambda>e. send_json env (Error (''Docker error: '' @ str e))))
      {p, e} {p} {p}" for cs le wr
    by (rule leads_try_except_APIError [OF inner report]) simp
  have status: "leads Q (send_json env (Status msg)) {p} (insert p Q) {p}"
    by (rule leads_weaken [OF leads_send_json [where Q = Q and N = "{p}" and H = "{p}"]])
      (auto simp: start)
  have create: "leads {p} (containers_run b (run_args img cmd wd)) {p} (insert p Q) {p}"
    by (rule leads_weaken [OF leads_containers_run [where Q = "{p}" and H = "{p}"]]) auto
  have guarded': "leads {p}
      (case x of (cs, le, wr) \<Rightarrow>
        try_except_APIError
          (bind (stream_logs env cs le) (\<lambda>_.
            bind (container_wait wr) (\<lambda>exit_code.
            if exit_code \<noteq> 0
            then send_json env (Error (''Process exited with code '' @ str_int exit_code))
            else return ())))
          (\<lambda>e. send_json env (Error (''Docker error: '' @ str e))))
      {p, e} (insert p Q) {p}" for x
  proof (cases x)
    case (fields cs le wr)
    have "leads {p}
      (try_except_APIError
        (bind (stream_logs env cs le) (\<lambda>_.
          bind (container_wait wr) (\<lambda>exit_code.
          if exit_code \<noteq> 0
          then send_json env (Error (''Process exited with code '' @ str_int exit_code))
          else return ())))
        (\<lambda>e. send_json env (Error (''Docker error: '' @ str e))))
      {p, e} (insert p Q) {p}"
      by (rule leads_weaken [OF guarded]) auto
    then show ?thesis unfolding fields prod.case .
  qed
  show ?thesis
    unfolding run_container_def
    by (intro leads_bind [where ?N1.0 = "{p}"] status create guarded')
qed

lemma code_step_Error: "\<exists>q'. code_step q (Error d) = Some q'"
  by (cases q) simp_all

lemma leads_handler:
  "leads live (send_json env (Error d)) ended live UNIV"
  by (rule leads_weaken [OF leads_send_json [where Q = live and N = ended and H = UNIV]])
    (auto simp: live_def ended_def)

lemma leads_execute_body:
  "leads {Created} (execute_body env cfg code language) {Completed} live UNIV"
proof -
  let ?N1 = "{Starting, Compiling, CompileFailed}"
  have complete: "leads {Running, RunFailed} (send_json env (Status ''Execution complete''))
      {Completed} live UNIV"
    by (rule leads_weaken [OF leads_send_json [where Q = "{Running, RunFailed}"
            and N = "{Completed}" and H = UNIV]]) (auto simp: live_def)
  have run: "leads ?N1 (run_container env (run_unit env) img cmd wd ''Running...'')
      {Running, RunFailed} live UNIV" for img cmd wd
    by (rule leads_weaken [OF leads_run_container [where p = Running and e = RunFailed
            and Q = ?N1]]) (auto simp: live_def)
  have fmt: "leads ?N1 (format t kw) ?N1 live UNIV" for t kw
    by (rule leads_weaken [OF leads_format [where Q = ?N1 and H = UNIV]]) (auto simp: live_def)
  have tail: "leads ?N1
      (bind (format t kw) (\<lambda>cmd.
        bind (run_container env (run_unit env) img cmd wd ''Running...'') (\<lambda>_.
        send_json env (Status ''Execution complete''))))
      {Completed} live UNIV" for t kw img wd
    by (intro leads_bind [OF fmt] leads_bind [OF run] complete)
  have compile: "leads {Starting} (run_container env (compile_unit env) img cmd wd ''Compiling...'')
      ?N1 live UNIV" for img cmd wd
    by (rule leads_weaken [OF leads_run_container [where p = Compiling and e = CompileFailed
            and Q = "{Starting}"]]) (auto simp: live_def)
  have fmt1: "leads {Starting} (format t kw) {Starting} live UNIV" for t kw
    by (rule leads_weaken [OF leads_format [where Q = "{Starting}" and H = UNIV]])
      (auto simp: live_def)
  have skip: "leads {Starting} (return ()) ?N1 live UNIV"
    by (rule leads_weaken [OF leads_return [where Q = "{Starting}" and X = live and H = UNIV]])
      auto
  have build: "leads {Starting}
      (case compile_cmd cfg of
         None \<Rightarrow> return ()
       | Some template \<Rightarrow>
           bind (format template kw) (\<lambda>cmd.
           run_container env (compile_unit env) img cmd wd ''Compiling...''))
      ?N1 live UNIV" for kw img wd
    by (cases "compile_cmd cfg") (auto intro: skip leads_bind [OF fmt1] compile)
  have starting: "leads {Created} (send_json env (Status ''Starting execution...''))
      {Starting} live UNIV"
    by (rule leads_weaken [OF leads_send_json [where Q = "{Created}" and N = "{Starting}"
            and H = UNIV]]) (auto simp: live_def)
  have writes: "leads {Created} (write_text env p s) {Created} live UNIV" for p s
    by (rule leads_weaken [OF leads_write_text [where Q = "{Created}" and H = UNIV]])
      (auto simp: live_def)
  show ?thesis
    unfolding execute_body_def Let_def
    by (intro leads_bind [OF writes] leads_bind [OF starting] leads_bind [OF build] tail)
qed

lemma leads_execute:
  "leads {Created} (execute env code language) ended UNIV UNIV"
proof (cases "LANGUAGE_CONFIGS language")
  case None
  have "leads {Created} (send_json env (Error d)) ended UNIV UNIV" for d
    by (rule leads_weaken [OF leads_handler]) (auto simp: live_def)
  with None show ?thesis by (simp add: execute_def)
next
  case (Some cfg)
  have mk: "leads {Created} (mkdir env d) {Created} UNIV UNIV" for d
    by (rule leads_weaken [OF leads_mkdir [where Q = "{Created}" and H = UNIV]]) auto
  have body: "leads {Created} (execute_body env cfg code language) ended live UNIV"
    by (rule leads_weaken [OF leads_execute_body]) (auto simp: ended_def)
  have "leads {Created}
      (try_finally
        (try_except (execute_body env cfg code language) (\<lambda>e. send_json env (Error (str e))))
        (rmtree env (work_dir_of env) True))
      ended UNIV UNIV"
    by (rule leads_weaken [OF leads_try_finally [OF leads_try_except [OF body leads_handler]
            rmtree_silent]]) auto
  then show ?thesis
    unfolding execute_Some [OF Some] by (intro leads_bind [OF mk])
qed

lemma leads_execute_code:
  "leads {Created} (execute_code env) UNIV UNIV UNIV"
proof -
  have acc: "leads {Created} accept {Created} UNIV UNIV"
    by (rule leads_accept)
  have recv: "leads {Created} (receive_json env) {Created} UNIV UNIV"
    by (rule leads_weaken [OF leads_receive_json [where Q = "{Created}" and H = UNIV]]) auto
  have inner: "leads {Created}
      (bind (receive_json env) (\<lambda>data.
        execute env (dict_get data ''code'' []) (dict_get data ''language'' ''python'')))
      UNIV UNIV UNIV"
    by (intro leads_bind [OF recv] leads_weaken [OF leads_execute]) auto
  have server_error: "leads UNIV (send_json env (Error d)) UNIV UNIV UNIV" for d
    by (rule leads_weaken [OF leads_send_json [where Q = UNIV and N = UNIV and H = UNIV]])
      (auto intro: code_step_Error)
  have "leads {Created}
      (try_finally
        (try_except
          (bind (receive_json env) (\<lambda>data.
            execute env (dict_get data ''code'' []) (dict_get data ''language'' ''python'')))
          (\<lambda>e. send_json env (Error (''Server error: '' @ str e))))
        close)
      UNIV UNIV UNIV"
    by (rule leads_weaken [OF leads_try_finally [OF leads_try_except [OF inner server_error]
            close_silent]]) auto
  then show ?thesis
    unfolding execute_code_def by (intro leads_bind [OF acc])
qed

lemma session_accepted:
  assumes "frames w = []"
  shows "\<exists>q. code_run Created (frames (snd (execute_code env w))) = Some q"
proof -
  obtain r w' where e: "execute_code env w = (r, w')" by (cases "execute_code env w")
  from assms have "code_run Created (frames w) = Some Created" by simp
  from leadsD [OF leads_execute_code this _ e] e show ?thesis by auto
qed

subsection \<open>What the machine accepts\<close>

lemma only_errors_after_the_end:
  "q \<in> {Completed, Failed} \<Longrightarrow> code_run q ys = Some q' \<Longrightarrow> list_all is_Error ys"
proof (induction ys arbitrary: q)
  case Nil
  then show ?case by simp
next
  case (Cons f ys)
  from Cons.prems obtain q1 where s: "code_step q f = Some q1" and r: "code_run q1 ys = Some q'"
    by (auto split: option.splits)
  from Cons.prems(1) s have "q1 \<in> {Completed, Failed} \<and> is_Error f"
    by (cases f) auto
  with Cons.IH [OF _ r] show ?case by simp
qed

lemma step_complete:
  "code_step q (Status ''Execution complete'') = Some q' \<Longrightarrow> q' = Completed"
  by (cases q) (simp_all split: if_splits)

lemma step_running:
  "code_step q (Status ''Running...'') = Some q' \<Longrightarrow> q' = Running"
  by (cases q) (simp_all split: if_splits)

lemma step_error:
  "code_step q (Error e) = Some q' \<Longrightarrow> q' \<in> closed_to_output"
  by (cases q) (auto simp: closed_to_output_def)

lemma later_stays:
  "q \<in> running_or_later \<Longrightarrow> code_run q ys = Some q' \<Longrightarrow>
   q' \<in> running_or_later \<and> Status ''Compiling...'' \<notin> set ys \<and> Status ''Running...'' \<notin> set ys"
proof (induction ys arbitrary: q)
  case Nil
  then show ?case by simp
next
  case (Cons f ys)
  from Cons.prems obtain q1 where s: "code_step q f = Some q1" and r: "code_run q1 ys = Some q'"
    by (auto split: option.splits)
  from Cons.prems(1) s have "q1 \<in> running_or_later \<and> f \<noteq> Status ''Compiling...'' \<and>
      f \<noteq> Status ''Running...''"
    by (cases f) (auto simp: running_or_later_def split: if_splits)
  with Cons.IH [OF _ r] show ?case by auto
qed

lemma no_output_unless_running:
  "q \<in> closed_to_output \<Longrightarrow> code_run q ys = Some q' \<Longrightarrow>
   Status ''Running...'' \<notin> set ys \<Longrightarrow> Output d \<notin> set ys"
proof (induction ys arbitrary: q)
  case Nil
  then show ?case by simp
next
  case (Cons f ys)
  from Cons.prems obtain q1 where s: "code_step q f = Some q1" and r: "code_run q1 ys = Some q'"
    by (auto split: option.splits)
  from Cons.prems(1,3) s have "q1 \<in> closed_to_output \<and> f \<noteq> Output d"
    by (cases f) (auto simp: closed_to_output_def split: if_splits)
  with Cons.IH [OF _ r] Cons.prems(3) show ?case by auto
qed

lemma accepted_complete_last:
  assumes "code_run q (xs @ Status ''Execution complete'' # ys) = Some q'"
  shows "list_all is_Error ys"
proof -
  from assms obtain q1 q2 where "code_step q1 (Status ''Execution complete'') = Some q2"
    and r: "code_run q2 ys = Some q'"
    by (auto simp: code_run_append split: option.splits)
  then have "q2 \<in> {Completed, Failed}" by (auto dest: step_complete)
  from only_errors_after_the_end [OF this r] show ?thesis .
qed

lemma accepted_error_then_output:
  assumes "code_run q (xs @ Error e # ys) = Some q'" and "Status ''Running...'' \<notin> set ys"
  shows "Output d \<notin> set ys"
proof -
  from assms(1) obtain q1 q2 where "code_step q1 (Error e) = Some q2"
    and r: "code_run q2 ys = Some q'"
    by (auto simp: code_run_append split: option.splits)
  then have "q2 \<in> closed_to_output" by (auto dest: step_error)
  from no_output_unless_running [OF this r assms(2)] show ?thesis .
qed

lemma accepted_after_running:
  assumes "code_run q (xs @ Status ''Running...'' # ys) = Some q'"
  shows "q' \<in> running_or_later \<and> Status ''Compiling...'' \<notin> set ys \<and>
     Status ''Running...'' \<notin> set ys"
proof -
  from assms obtain q1 q2 where "code_step q1 (Status ''Running...'') = Some q2"
    and r: "code_run q2 ys = Some q'"
    by (auto simp: code_run_append split: option.splits)
  then have "q2 \<in> running_or_later" by (auto dest: step_running simp: running_or_later_def)
  from later_stays [OF this r] show ?thesis .
qed

lemma failing_run_session:
  "frames (snd (execute_code failing_run fresh)) =
     [Status ''Starting execution...'', Status ''Running...'', Output ''boom'',
      Error ''Process exited with code 1'', Status ''Execution complete'']"
  by code_simp

lemma compile_refused_session:
  "frames (snd (execute_code compile_refused fresh)) =
     [Status ''Starting execution...'', Status ''Compiling...'',
      Error ''Docker error: 500 Server Error for http+docker://localhost/v1.43/containers/logs: Internal Server Error'',
      Status ''Running...'', Output ''sh: 1: ./program: not found'',
      Error ''Process exited with code 127'', Status ''Execution complete'']"
  by code_simp

text \<open>
  Claim C7 does not hold of the machine of the specification. In a session whose
  program exits with status 1, the error frame that reports the status is followed by
  the status \<^verbatim>\<open>Execution complete\<close>: the session passes through both terminal states.
  In a session whose compile phase ends with an error of Docker, the error frame is
  followed by the status \<^verbatim>\<open>Running...\<close> and by an output frame. The machine of the
  specification takes neither sequence of frames.
\<close>

theorem output_after_backend_error:
  "frames (snd (execute_code failing_run fresh)) =
     [Status ''Starting execution...'', Status ''Running...'', Output ''boom'',
      Error ''Process exited with code 1'', Status ''Execution complete''] \<and>
   spec_run Created (frames (snd (execute_code failing_run fresh))) = None \<and>
   frames (snd (execute_code compile_refused fresh)) =
     [Status ''Starting execution...'', Status ''Compiling...'',
      Error ''Docker error: 500 Server Error for http+docker://localhost/v1.43/containers/logs: Internal Server Error'',
      Status ''Running...'', Output ''sh: 1: ./program: not found'',
      Error ''Process exited with code 127'', Status ''Execution complete''] \<and>
   spec_run Created (frames (snd (execute_code compile_refused fresh))) = None"
  unfolding failing_run_session compile_refused_session by (simp add: is_exit_report_def)

text \<open>
  Claim C7, amended. The frames of every session that starts with no frame sent,
  whatever the surroundings do, are a path of the machine of the code
  (\<open>code_step\<close>), in which an error frame of the compile phase does not end the
  session, the error frame of the run phase is followed by the completion status, and
  an error frame can follow the end of the session. After the status
  \<^verbatim>\<open>Execution complete\<close> only error frames are sent: no output frame and no status
  frame. An output frame follows an error frame only if the status \<^verbatim>\<open>Running...\<close>
  lies between them. After the status \<^verbatim>\<open>Running...\<close> neither \<^verbatim>\<open>Compiling...\<close> nor
  \<^verbatim>\<open>Running...\<close> is sent again, and the machine is in the running phase or a later
  one.
\<close>

theorem frames_follow_lifecycle:
  assumes "frames w = []"
  shows "(\<exists>q. code_run Created (frames (snd (execute_code env w))) = Some q) \<and>
    (\<forall>xs ys. frames (snd (execute_code env w)) = xs @ Status ''Execution complete'' # ys \<longrightarrow>
       list_all is_Error ys) \<and>
    (\<forall>xs e ys d. frames (snd (execute_code env w)) = xs @ Error e # ys \<and>
       Status ''Running...'' \<notin> set ys \<longrightarrow> Output d \<notin> set ys) \<and>
    (\<forall>xs ys. frames (snd (execute_code env w)) = xs @ Status ''Running...'' # ys \<longrightarrow>
       Status ''Compiling...'' \<notin> set ys \<and> Status ''Running...'' \<notin> set ys \<and>
       (\<exists>q \<in> running_or_later. code_run Created (frames (snd (execute_code env w))) = Some q))"
proof -
  from session_accepted [OF assms, of env] obtain q
    where q: "code_run Created (frames (snd (execute_code env w))) = Some q" by blast
  have a: "list_all is_Error ys"
    if "frames (snd (execute_code env w)) = xs @ Status ''Execution complete'' # ys"
    for xs ys
    using q that accepted_complete_last [of Created xs ys q] by simp
  have b: "Output d \<notin> set ys"
    if "frames (snd (execute_code env w)) = xs @ Error e # ys" "Status ''Running...'' \<notin> set ys"
    for xs e ys d
    using q that accepted_error_then_output [of Created xs e ys q d] by simp
  have c: "Status ''Compiling...'' \<notin> set ys \<and> Status ''Running...'' \<notin> set ys \<and>
      (\<exists>q \<in> running_or_later. code_run Created (frames (snd (execute_code env w))) = Some q)"
    if "frames (snd (execute_code env w)) = xs @ Status ''Running...'' # ys" for xs ys
    using q that accepted_after_running [of Created xs ys q] by simp
  from q a b c show ?thesis by blast
qed

theorem frames_follow_lifecycle_witness:
  "frames fresh = [] \<and>
   (\<exists>q. code_run Created (frames (snd (execute_code compile_refused fresh))) = Some q)"
proof -
  have 1: "frames fresh = []" by (simp add: fresh_def frames_def)
  note t = frames_follow_lifecycle [OF 1, of compile_refused]
  from t have a: "\<exists>q. code_run Created (frames (snd (execute_code compile_refused fresh))) = Some q"
    by (rule conjunct1)
  from 1 a show ?thesis by (intro conjI)
qed

end
